theory Spec2Isabelle
  imports Complex_Main
begin

section \<open>Data model\<close>

text \<open>
  The notebook \<^verbatim>\<open>Tutorials/12_MD/12a_basics.ipynb\<close> defines the class
  \<^verbatim>\<open>MDSimulation\<close> and its subclass \<^verbatim>\<open>MDSimulationSwitch\<close>.
  Floating-point numbers are modelled by exact reals. A numpy array of shape \<open>(N, 2)\<close>
  is a list of pairs of reals; a vectorised numpy expression is the row-wise map of the
  scalar expression.
\<close>

type_synonym vec = "real \<times> real"

text \<open>
  Python exceptions the code can raise are values of \<open>error\<close>. \<open>NameError\<close> carries the
  undefined name. \<open>NonFinite\<close> is not an exception: numpy divides an array by zero with a
  warning and the result holds \<^verbatim>\<open>inf\<close> or \<^verbatim>\<open>nan\<close>; exact real arithmetic has no
  value for that, so the model ends the computation with \<open>Inl NonFinite\<close>.
\<close>

datatype error = IndexError | ZeroDivisionError | ValueError | NameError string | NonFinite

text \<open>
  The attributes of a simulation object. The first nine are the constructor arguments
  (\<open>temp\<close> is stored as \<^verbatim>\<open>self.T\<close>); \<open>window\<close> is \<open>None\<close> for an
  \<^verbatim>\<open>MDSimulation\<close> and \<open>Some w\<close> for an \<^verbatim>\<open>MDSimulationSwitch\<close> with
  \<^verbatim>\<open>self.window = w\<close>. The remaining fields are the mutable state; \<open>coorddata\<close> is
  the data handed to the coordinate plot.
\<close>

record sim =
  sigma :: real
  epsilon :: real
  mass :: real
  dt :: real
  temp :: real
  atoms_per_dim :: nat
  boxlength :: real
  cutoff :: real
  nsteps :: nat
  window :: "real option"
  coords :: "vec list"
  last_coords :: "vec list"
  timestep :: real
  timeseries :: "real list"
  PEs :: "real list"
  KEs :: "real list"
  TEs :: "real list"
  coorddata :: "vec list"

subsection \<open>Intermediates computed once in the constructor\<close>

text \<open>
  \<^verbatim>\<open>__init__\<close> stores these "intermediates just for convenience"; no method assigns
  them or the arguments they are computed from again, so each is a function of the
  constructor arguments.
\<close>

definition Rgas :: real where
  "Rgas = 83144621 / 10000000000"

definition RT :: "sim \<Rightarrow> real" where
  "RT s = Rgas * temp s"

definition cutoff2 :: "sim \<Rightarrow> real" where
  "cutoff2 s = (cutoff s)\<^sup>2"

definition foureps :: "sim \<Rightarrow> real" where
  "foureps s = 4 * epsilon s"

definition natoms :: "sim \<Rightarrow> nat" where
  "natoms s = (atoms_per_dim s)\<^sup>2"

text \<open>\<^verbatim>\<open>itertools.combinations(range(n), 2)\<close>: all \<open>(i, j)\<close> with \<open>i < j < n\<close>, in
  lexicographic order.\<close>

definition combinations2 :: "nat \<Rightarrow> (nat \<times> nat) list" where
  "combinations2 n = concat (map (\<lambda>i. map (Pair i) [Suc i..<n]) [0..<n])"

definition pairs :: "sim \<Rightarrow> (nat \<times> nat) list" where
  "pairs s = combinations2 (natoms s)"

definition sigmaij :: "sim \<Rightarrow> real" where
  "sigmaij s = 2 * sigma s"

definition sig2 :: "sim \<Rightarrow> real" where
  "sig2 s = (sigmaij s)\<^sup>2"

definition boxinv :: "sim \<Rightarrow> real" where
  "boxinv s = 1 / boxlength s"

definition minv :: "sim \<Rightarrow> real" where
  "minv s = 1 / mass s"

subsection \<open>Periodicity\<close>

text \<open>
  \<^verbatim>\<open>dR -= self.boxlength*np.floor(dR*self.boxinv+0.5)\<close>, for one row of \<open>dR\<close>, read in
  exact arithmetic: every product, sum and difference is that of the real numbers. The
  evaluators and the Verlet step below are built on this reading. The same line as the
  program evaluates it, with every operation rounded to a double, is \<open>wrap_double\<close> below.
\<close>

definition wrap :: "sim \<Rightarrow> real \<Rightarrow> real" where
  "wrap s d = d - boxlength s * of_int \<lfloor>d * boxinv s + 1 / 2\<rfloor>"

definition apply_periodicity :: "sim \<Rightarrow> vec \<Rightarrow> vec" where
  "apply_periodicity s dR = (wrap s (fst dR), wrap s (snd dR))"

subsection \<open>Periodicity in double precision\<close>

text \<open>
  Python floats and numpy's \<^verbatim>\<open>float64\<close> are IEEE 754 binary64 numbers, and every
  arithmetic operation returns the exact result rounded to the nearest double, ties to
  the even significand. \<open>pow2 e\<close> is \<open>2 ^ e\<close>. \<open>expo x\<close> is the exponent of the binade of
  \<open>x\<close>: the largest \<open>e\<close> between \<open>-1022\<close> and \<open>1023\<close> with \<open>2 ^ e \<le> \<bar>x\<bar>\<close>, and \<open>-1022\<close> for
  the subnormal range. The doubles of that binade are the integer multiples of
  \<open>2 ^ (e - 52)\<close>, so \<open>binary64 x\<close> rounds \<open>x\<close> to a multiple of it; a result of magnitude
  \<open>2 ^ 1024\<close> or more is an overflow (\<^verbatim>\<open>inf\<close>), written \<open>None\<close>.
\<close>

definition pow2 :: "int \<Rightarrow> real" where
  "pow2 e = (if 0 \<le> e then 2 ^ nat e else 1 / 2 ^ nat (- e))"

fun find_expo :: "nat \<Rightarrow> real \<Rightarrow> int" where
  "find_expo 0 a = - 1022"
| "find_expo (Suc n) a =
     (if pow2 (int (Suc n) - 1022) \<le> a then int (Suc n) - 1022 else find_expo n a)"

definition expo :: "real \<Rightarrow> int" where
  "expo x = find_expo 2045 \<bar>x\<bar>"

definition round_even :: "real \<Rightarrow> int" where
  "round_even x =
     (let f = \<lfloor>x\<rfloor>; r = x - of_int f
      in if r < 1 / 2 then f else if 1 / 2 < r then f + 1 else if even f then f else f + 1)"

definition binary64 :: "real \<Rightarrow> real option" where
  "binary64 x =
     (let ulp = pow2 (expo x - 52);
          y = of_int (round_even (x / ulp)) * ulp
      in if pow2 1024 \<le> \<bar>y\<bar> then None else Some y)"

text \<open>
  \<^verbatim>\<open>self.boxinv = 1.0/self.boxlength\<close> in the constructor: one rounded division, which
  raises for a zero box length, so that no object exists then.
\<close>

definition boxinv_double :: "sim \<Rightarrow> real option" where
  "boxinv_double s = (if boxlength s = 0 then None else binary64 (1 / boxlength s))"

text \<open>
  \<^verbatim>\<open>dR -= self.boxlength*np.floor(dR*self.boxinv+0.5)\<close> on doubles \<open>d\<close> and
  \<open>boxlength\<close>, operation by operation: the product \<^verbatim>\<open>dR*self.boxinv\<close>, the sum with
  \<^verbatim>\<open>0.5\<close>, \<^verbatim>\<open>np.floor\<close> (exact on doubles), the product with \<^verbatim>\<open>self.boxlength\<close> and the
  subtraction from \<^verbatim>\<open>dR\<close>. The result is \<open>None\<close> when an intermediate value overflows.
\<close>

definition wrap_double :: "sim \<Rightarrow> real \<Rightarrow> real option" where
  "wrap_double s d =
     Option.bind (boxinv_double s) (\<lambda>boxinv'.
     Option.bind (binary64 (d * boxinv')) (\<lambda>q.
     Option.bind (binary64 (q + 1 / 2)) (\<lambda>h.
     Option.bind (binary64 (boxlength s * of_int \<lfloor>h\<rfloor>)) (\<lambda>m.
     binary64 (d - m)))))"

definition apply_periodicity_double :: "sim \<Rightarrow> vec \<Rightarrow> vec option" where
  "apply_periodicity_double s dR =
     Option.bind (wrap_double s (fst dR)) (\<lambda>x.
     Option.bind (wrap_double s (snd dR)) (\<lambda>y. Some (x, y)))"

subsection \<open>Row operations\<close>

definition vadd :: "vec \<Rightarrow> vec \<Rightarrow> vec" where
  "vadd a b = (fst a + fst b, snd a + snd b)"

definition vsub :: "vec \<Rightarrow> vec \<Rightarrow> vec" where
  "vsub a b = (fst a - fst b, snd a - snd b)"

definition vscale :: "real \<Rightarrow> vec \<Rightarrow> vec" where
  "vscale c a = (c * fst a, c * snd a)"

text \<open>One row of \<^verbatim>\<open>np.einsum('ab,ab->a', dR, dR)\<close>.\<close>

definition norm2 :: "vec \<Rightarrow> real" where
  "norm2 d = fst d * fst d + snd d * snd d"

subsection \<open>The shared head of both evaluators\<close>

text \<open>
  \<^verbatim>\<open>dR = self.apply_periodicity(coords[self.jindices] - coords[self.iindices])\<close>, where
  \<^verbatim>\<open>iindices\<close> and \<^verbatim>\<open>jindices\<close> are the two columns of \<^verbatim>\<open>self.pairs\<close>: row \<open>n\<close>
  is the wrapped difference of the positions of the two atoms of pair \<open>n\<close>. Indexing
  an array with a row index beyond its end raises \<^verbatim>\<open>IndexError\<close>.
\<close>

definition index_error :: "sim \<Rightarrow> vec list \<Rightarrow> bool" where
  "index_error s pos = list_ex (\<lambda>(iind, jind). length pos \<le> jind \<or> length pos \<le> iind) (pairs s)"

definition displacements :: "sim \<Rightarrow> vec list \<Rightarrow> vec list" where
  "displacements s pos =
     map (\<lambda>(iind, jind). apply_periodicity s (vsub (pos ! jind) (pos ! iind))) (pairs s)"

text \<open>
  \<^verbatim>\<open>for n,(iind,jind) in enumerate(self.pairs):
      forces[iind] += pairforces[n]
      forces[jind] -= pairforces[n]\<close>
\<close>

fun accumulate :: "(nat \<times> nat) list \<Rightarrow> vec list \<Rightarrow> vec list \<Rightarrow> vec list" where
  "accumulate ((iind, jind) # ps) (f # fs) forces =
     accumulate ps fs
       (let forces = forces[iind := vadd (forces ! iind) f]
        in forces[jind := vsub (forces ! jind) f])"
| "accumulate _ _ forces = forces"

subsection \<open>Hard-cutoff evaluator\<close>

text \<open>
  The scalar part of \<^verbatim>\<open>compute_energy_and_gradient_cutoff\<close> for one pair with squared
  distance \<open>r2\<close>: the pair energy and the factor that multiplies \<open>dR\<close> in the pair force.
\<close>

definition lj_cutoff :: "sim \<Rightarrow> real \<Rightarrow> real \<times> real" where
  "lj_cutoff s r2 =
     (let r2inv = 1 / r2;
          r2inv = (if r2 > cutoff2 s then 0 else r2inv);
          sig_r2 = sig2 s * r2inv;
          sig_r6 = sig_r2 * sig_r2 * sig_r2;
          sig_r12 = sig_r6 * sig_r6;
          repulsive = foureps s * sig_r12;
          attractive = foureps s * sig_r6;
          pairenergies = repulsive - attractive
      in (pairenergies, 6 * r2inv * (repulsive + pairenergies)))"

definition pairenergies_cutoff :: "sim \<Rightarrow> vec list \<Rightarrow> real list" where
  "pairenergies_cutoff s pos = map (\<lambda>dR. fst (lj_cutoff s (norm2 dR))) (displacements s pos)"

text \<open>One row of \<^verbatim>\<open>np.einsum('ab,a->ab', dR, ...)\<close> scales \<open>dR\<close> by the pair's factor.\<close>

definition pairforces_cutoff :: "sim \<Rightarrow> vec list \<Rightarrow> vec list" where
  "pairforces_cutoff s pos =
     map (\<lambda>dR. vscale (snd (lj_cutoff s (norm2 dR))) dR) (displacements s pos)"

text \<open>
  \<^verbatim>\<open>r2inv = 1.0/r2\<close> is computed for every pair before the cutoff mask is applied;
  a pair at squared distance zero makes the returned energy \<^verbatim>\<open>nan\<close>.
\<close>

definition compute_energy_and_gradient_cutoff :: "sim \<Rightarrow> vec list \<Rightarrow> error + real \<times> vec list" where
  "compute_energy_and_gradient_cutoff s pos =
     (let forces = replicate (natoms s) (0, 0) in
      if index_error s pos then Inl IndexError
      else if list_ex (\<lambda>dR. norm2 dR = 0) (displacements s pos) then Inl NonFinite
      else
        let energy = sum_list (pairenergies_cutoff s pos)
        in Inr (energy, accumulate (pairs s) (pairforces_cutoff s pos) forces))"

subsection \<open>Switched evaluator\<close>

text \<open>
  \<^verbatim>\<open>switch  = np.where(r2>ron2, (roff2 + 2.0*r2 - 3.0*ron2)*(roff2 - r2)**2 * denom, 1.0)
  dswitch = np.where(r2>ron2,  -12.0*(r2 - roff2)*(r2 - ron2)  * denom, 0.0)
  switch[r2>self.cutoff2]  = 0.0
  dswitch[r2>self.cutoff2] = 0.0\<close>
\<close>

definition switch :: "sim \<Rightarrow> real \<Rightarrow> real \<Rightarrow> real \<Rightarrow> real \<Rightarrow> real" where
  "switch s ron2 roff2 denom r2 =
     (let sw = (if r2 > ron2 then (roff2 + 2 * r2 - 3 * ron2) * (roff2 - r2)\<^sup>2 * denom else 1)
      in if r2 > cutoff2 s then 0 else sw)"

definition dswitch :: "sim \<Rightarrow> real \<Rightarrow> real \<Rightarrow> real \<Rightarrow> real \<Rightarrow> real" where
  "dswitch s ron2 roff2 denom r2 =
     (let dsw = (if r2 > ron2 then - 12 * (r2 - roff2) * (r2 - ron2) * denom else 0)
      in if r2 > cutoff2 s then 0 else dsw)"

definition lj_switch :: "sim \<Rightarrow> real \<Rightarrow> real \<Rightarrow> real \<Rightarrow> real \<Rightarrow> real \<times> real" where
  "lj_switch s ron2 roff2 denom r2 =
     (let r2inv = 1 / r2;
          sig_r2 = sig2 s * r2inv;
          sig_r6 = sig_r2 * sig_r2 * sig_r2;
          sig_r12 = sig_r6 * sig_r6;
          rep = foureps s * sig_r12;
          att = foureps s * sig_r6;
          pairenergies = switch s ron2 roff2 denom r2 * (rep - att)
      in (pairenergies,
          6 * r2inv * switch s ron2 roff2 denom r2 * (2 * rep - att)
            + dswitch s ron2 roff2 denom r2 * (rep - att)))"

definition ron2_of :: "sim \<Rightarrow> real \<Rightarrow> real" where
  "ron2_of s w = (cutoff s - w)\<^sup>2"

definition denom_of :: "sim \<Rightarrow> real \<Rightarrow> real" where
  "denom_of s w = 1 / (cutoff2 s - ron2_of s w) ^ 3"

definition pairenergies_switch :: "sim \<Rightarrow> real \<Rightarrow> vec list \<Rightarrow> real list" where
  "pairenergies_switch s w pos =
     map (\<lambda>dR. fst (lj_switch s (ron2_of s w) (cutoff2 s) (denom_of s w) (norm2 dR)))
       (displacements s pos)"

definition pairforces_switch :: "sim \<Rightarrow> real \<Rightarrow> vec list \<Rightarrow> vec list" where
  "pairforces_switch s w pos =
     map (\<lambda>dR. vscale (snd (lj_switch s (ron2_of s w) (cutoff2 s) (denom_of s w) (norm2 dR))) dR)
       (displacements s pos)"

text \<open>
  \<^verbatim>\<open>compute_energy_and_gradient_switch\<close> of an \<^verbatim>\<open>MDSimulationSwitch\<close> whose
  \<^verbatim>\<open>self.window\<close> is \<open>w\<close>. \<^verbatim>\<open>denom = 1.0 / (roff2 - ron2)**3\<close> divides Python floats
  and raises \<^verbatim>\<open>ZeroDivisionError\<close> when the divisor is zero.
\<close>

definition compute_energy_and_gradient_switch :: "sim \<Rightarrow> real \<Rightarrow> vec list \<Rightarrow> error + real \<times> vec list" where
  "compute_energy_and_gradient_switch s w pos =
     (let ron2 = ron2_of s w;
          roff2 = cutoff2 s
      in if (roff2 - ron2) ^ 3 = 0 then Inl ZeroDivisionError
      else
        let forces = replicate (natoms s) (0, 0) in
        if index_error s pos then Inl IndexError
        else if list_ex (\<lambda>dR. norm2 dR = 0) (displacements s pos) then Inl NonFinite
        else
          let energy = sum_list (pairenergies_switch s w pos)
          in Inr (energy, accumulate (pairs s) (pairforces_switch s w pos) forces))"

text \<open>
  \<^verbatim>\<open>compute_energy_and_gradient\<close>: the base class calls the cutoff evaluator; the
  subclass overrides it and selects by \<^verbatim>\<open>self.window == 0\<close>.
\<close>

definition compute_energy_and_gradient :: "sim \<Rightarrow> vec list \<Rightarrow> error + real \<times> vec list" where
  "compute_energy_and_gradient s pos =
     (case window s of
        None \<Rightarrow> compute_energy_and_gradient_cutoff s pos
      | Some w \<Rightarrow>
          if w = 0 then compute_energy_and_gradient_cutoff s pos
          else compute_energy_and_gradient_switch s w pos)"

subsection \<open>Verlet step\<close>

text \<open>
  \<^verbatim>\<open>propagate\<close>. Arrays whose row counts differ do not add up (\<^verbatim>\<open>ValueError\<close>; numpy
  would broadcast an array of one row, which no constructed object holds, as \<open>natoms\<close> is at
  least 4);
  \<^verbatim>\<open>(newcoords - self.last_coords)/(2*self.dt)\<close> divides an array, so a zero time step
  gives non-finite velocities. The plot updates other than the coordinate data are
  left out.
\<close>

definition propagate :: "sim \<Rightarrow> error + sim" where
  "propagate s =
     (case compute_energy_and_gradient s (coords s) of
        Inl e \<Rightarrow> Inl e
      | Inr (PE, gradient) \<Rightarrow>
          let a = map (vscale (- minv s)) gradient in
          if length (last_coords s) \<noteq> length (coords s) \<or> length a \<noteq> length (coords s)
          then Inl ValueError
          else
            let newcoords =
                  map2 vadd (map2 vsub (map (vscale 2) (coords s)) (last_coords s))
                    (map (vscale (dt s * dt s)) a)
            in if 2 * dt s = 0 then Inl NonFinite
            else
              let v = map (\<lambda>d. (fst d / (2 * dt s), snd d / (2 * dt s)))
                        (map2 vsub newcoords (last_coords s));
                  KE = 1 / 2 * mass s * sum_list (map norm2 v);
                  displaycoords = map (apply_periodicity s) newcoords
              in Inr (s\<lparr>last_coords := coords s,
                        coords := newcoords,
                        coorddata := displaycoords,
                        timestep := timestep s + dt s,
                        timeseries := timeseries s @ [timestep s + dt s],
                        PEs := PEs s @ [PE],
                        KEs := KEs s @ [KE],
                        TEs := TEs s @ [PE + KE]\<rparr>))"

text \<open>\<open>K\<close> successive calls of \<^verbatim>\<open>propagate\<close>, as \<^verbatim>\<open>run_simulation\<close> makes them;
  an exception ends the run.\<close>

fun propagate_n :: "nat \<Rightarrow> sim \<Rightarrow> error + sim" where
  "propagate_n 0 s = Inr s"
| "propagate_n (Suc k) s = (case propagate s of Inl e \<Rightarrow> Inl e | Inr s' \<Rightarrow> propagate_n k s')"

subsection \<open>Construction\<close>

text \<open>
  \<^verbatim>\<open>init_coords\<close>: \<^verbatim>\<open>np.linspace(-L/2, L/2, n, endpoint=False)\<close> shifted by
  \<^verbatim>\<open>L/(2n)\<close>; atom \<open>a\<close> sits at column \<open>a div n\<close> (\<^verbatim>\<open>np.repeat\<close>) and row
  \<open>a mod n\<close> (\<^verbatim>\<open>np.tile\<close>), moved by \<^verbatim>\<open>0.2*(rand - 0.5)\<close>. The random draws
  \<^verbatim>\<open>np.random.rand(natoms, 2)\<close> and \<^verbatim>\<open>np.random.normal(size=(natoms, 2))\<close> are
  parameters of the model.
\<close>

definition spacing :: "real \<Rightarrow> nat \<Rightarrow> real list" where
  "spacing L n =
     map (\<lambda>k. (- L / 2 + real k * ((L / 2 - (- L / 2)) / real n)) + L / (2 * real n)) [0..<n]"

definition init_coords :: "real \<Rightarrow> nat \<Rightarrow> (nat \<Rightarrow> vec) \<Rightarrow> vec list" where
  "init_coords L n rand =
     map (\<lambda>a. vadd (spacing L n ! (a div n), spacing L n ! (a mod n))
                (vscale (2 / 10) (vsub (rand a) (1 / 2, 1 / 2))))
       [0..<n\<^sup>2]"

text \<open>
  \<^verbatim>\<open>__init__\<close> (for \<^verbatim>\<open>MDSimulationSwitch\<close>, \<open>win = Some window\<close>); \<open>rand a\<close> and
  \<open>normal a\<close> are row \<open>a\<close> of the two random arrays. The statements run in source order:
  \<^verbatim>\<open>self.pairs[:,0]\<close> fails on the empty pair array; \<^verbatim>\<open>1.0/boxlength\<close> and
  \<^verbatim>\<open>1.0/mass\<close> divide Python numbers; the cutoff check executes
  \<^verbatim>\<open>raise ValidationError(...)\<close>, and the notebook neither defines nor imports the name
  \<^verbatim>\<open>ValidationError\<close>, so evaluating it raises \<^verbatim>\<open>NameError\<close>. \<^verbatim>\<open>np.sqrt\<close> of a negative
  number is \<^verbatim>\<open>nan\<close>, which raises nothing: the potential is evaluated next, and the
  velocities make the stored values non-finite after it. The plot objects are left out
  except the coordinate data.
\<close>

definition MDSimulation_init ::
  "real \<Rightarrow> real \<Rightarrow> real \<Rightarrow> real \<Rightarrow> real \<Rightarrow> nat \<Rightarrow> real \<Rightarrow> real \<Rightarrow> nat \<Rightarrow> real option
     \<Rightarrow> (nat \<Rightarrow> vec) \<Rightarrow> (nat \<Rightarrow> vec) \<Rightarrow> error + sim" where
  "MDSimulation_init sigma' epsilon' mass' temp' dt' atoms_per_dim' boxlength' cutoff' nsteps' win
       rand normal =
     (let s = \<lparr>sigma = sigma', epsilon = epsilon', mass = mass', dt = dt', temp = temp',
               atoms_per_dim = atoms_per_dim', boxlength = boxlength', cutoff = cutoff',
               nsteps = nsteps', window = win, coords = [], last_coords = [],
               timestep = 0, timeseries = [], PEs = [], KEs = [], TEs = [], coorddata = []\<rparr>
      in if pairs s = [] then Inl IndexError
      else if boxlength' = 0 then Inl ZeroDivisionError
      else if mass' = 0 then Inl ZeroDivisionError
      else if cutoff' \<ge> boxlength' / 2 then Inl (NameError ''ValidationError'')
      else
        let coords0 = init_coords boxlength' atoms_per_dim' rand;
            velocities = map (\<lambda>a. vscale (sqrt (RT s / mass')) (normal a)) [0..<natoms s];
            KE = 1 / 2 * mass' * sum_list (map norm2 velocities)
        in case compute_energy_and_gradient s coords0 of
             Inl e \<Rightarrow> Inl e
           | Inr (PE, gradient) \<Rightarrow>
               if RT s / mass' < 0 then Inl NonFinite
               else
                 let a = map (vscale (- minv s)) gradient;
                     coords1 =
                       map2 vadd coords0
                         (map2 vadd (map (vscale dt') velocities)
                            (map (vscale (1 / 2 * dt' * dt')) a))
                 in Inr (s\<lparr>coords := coords1, last_coords := coords0,
                           timestep := 0, timeseries := [0],
                           PEs := [PE], KEs := [KE], TEs := [KE + PE],
                           coorddata := coords1\<rparr>))"

subsection \<open>A small configuration\<close>

text \<open>
  Four atoms (\<open>atoms_per_dim = 2\<close>) in a box of length 10 with cutoff 3; only atoms 0
  and 1 are within the cutoff of each other.
\<close>

definition sim4 :: sim where
  "sim4 = \<lparr>sigma = 1 / 2, epsilon = 1, mass = 2, dt = 1 / 2, temp = 300,
           atoms_per_dim = 2, boxlength = 10, cutoff = 3, nsteps = 1, window = None,
           coords = [(0, 0), (2, 0), (0, 4), (4, 4)],
           last_coords = [(0, 0), (2, 0), (0, 4), (4, 4)],
           timestep = 0, timeseries = [0], PEs = [0], KEs = [0], TEs = [0],
           coorddata = []\<rparr>"

text \<open>The object \<open>sim4\<close> after one Verlet step.\<close>

definition sim4_next :: sim where
  "sim4_next = sim4\<lparr>last_coords := [(0, 0), (2, 0), (0, 4), (4, 4)],
       coords := [(93 / 4096, 0), (8099 / 4096, 0), (0, 4), (4, 4)],
       coorddata := [(93 / 4096, 0), (8099 / 4096, 0), (0, 4), (4, 4)],
       timestep := 1 / 2, timeseries := [0, 1 / 2], PEs := [0, - (63 / 1024)],
       KEs := [0, 8649 / 8388608], TEs := [0, - (507447 / 8388608)]\<rparr>"

subsection \<open>Notions used to state the properties\<close>

text \<open>The position update of the Verlet step, as a function of the current positions,
  the previous positions and the evaluator's array.\<close>

definition verlet :: "sim \<Rightarrow> vec list \<Rightarrow> vec list \<Rightarrow> vec list \<Rightarrow> vec list" where
  "verlet s cur prev gradient =
     map2 vadd (map2 vsub (map (vscale 2) cur) prev)
       (map (vscale (dt s * dt s)) (map (vscale (- (1 / mass s))) gradient))"


text \<open>Two objects built from the same constructor arguments, and two objects that
  moreover hold the same position history.\<close>

definition same_config :: "sim \<Rightarrow> sim \<Rightarrow> bool" where
  "same_config s t \<longleftrightarrow>
     sigma s = sigma t \<and> epsilon s = epsilon t \<and> mass s = mass t \<and> dt s = dt t
     \<and> temp s = temp t \<and> atoms_per_dim s = atoms_per_dim t \<and> boxlength s = boxlength t
     \<and> cutoff s = cutoff t \<and> nsteps s = nsteps t \<and> window s = window t"


text \<open>Moving a position by \<open>m\<close> box lengths along x and \<open>n\<close> box lengths along y.\<close>

definition translate :: "sim \<Rightarrow> int \<Rightarrow> int \<Rightarrow> vec \<Rightarrow> vec" where
  "translate s m n p = (fst p + of_int m * boxlength s, snd p + of_int n * boxlength s)"

text \<open>The Lennard-Jones pair energy at distance \<open>r\<close>.\<close>

definition lennard_jones :: "real \<Rightarrow> real \<Rightarrow> real \<Rightarrow> real" where
  "lennard_jones eps sig r = 4 * eps * ((sig / r) ^ 12 - (sig / r) ^ 6)"

text \<open>The energy a result carries (0 for a result that is an error), and the returned
  energy as a function of the x or of the y coordinate of atom \<open>k\<close>, all other
  coordinates as in \<open>pos\<close>.\<close>

definition energy_of :: "error + real \<times> vec list \<Rightarrow> real" where
  "energy_of r = (case r of Inl e \<Rightarrow> 0 | Inr (energy, forces) \<Rightarrow> energy)"

definition energy_x :: "(vec list \<Rightarrow> error + real \<times> vec list) \<Rightarrow> vec list \<Rightarrow> nat \<Rightarrow> real \<Rightarrow> real" where
  "energy_x evaluate pos k t = energy_of (evaluate (pos[k := (t, snd (pos ! k))]))"

definition energy_y :: "(vec list \<Rightarrow> error + real \<times> vec list) \<Rightarrow> vec list \<Rightarrow> nat \<Rightarrow> real \<Rightarrow> real" where
  "energy_y evaluate pos k t = energy_of (evaluate (pos[k := (fst (pos ! k), t)]))"

text \<open>What the force loop does with the force \<open>f\<close> of pair \<open>p\<close> in the entry of atom \<open>k\<close>:
  it adds \<open>f\<close> if \<open>k\<close> is the pair's first atom, subtracts it if \<open>k\<close> is the second.\<close>

definition contrib :: "nat \<Rightarrow> nat \<times> nat \<Rightarrow> vec \<Rightarrow> vec" where
  "contrib k p f = (if fst p = k then f else if snd p = k then vscale (- 1) f else (0, 0))"

subsection \<open>Auxiliary notions for the gradient proof\<close>

text \<open>The polynomial of the switching window; the wrapped displacement of one pair; and
  an evaluator with the pair energy \<open>E\<close> and the force factor \<open>G\<close> as parameters, of which
  both evaluators are instances.\<close>

definition switch_poly :: "real \<Rightarrow> real \<Rightarrow> real \<Rightarrow> real \<Rightarrow> real" where
  "switch_poly ron2 roff2 denom x = (roff2 + 2 * x - 3 * ron2) * (roff2 - x)\<^sup>2 * denom"

definition disp :: "sim \<Rightarrow> vec list \<Rightarrow> nat \<times> nat \<Rightarrow> vec" where
  "disp s pos p = apply_periodicity s (vsub (pos ! snd p) (pos ! fst p))"

definition gen_energy :: "sim \<Rightarrow> (real \<Rightarrow> real) \<Rightarrow> vec list \<Rightarrow> real" where
  "gen_energy s E pos = (\<Sum>p\<leftarrow>pairs s. E (norm2 (disp s pos p)))"

definition gen_force :: "sim \<Rightarrow> (real \<Rightarrow> real) \<Rightarrow> vec list \<Rightarrow> nat \<times> nat \<Rightarrow> vec" where
  "gen_force s G pos p = vscale (G (norm2 (disp s pos p))) (disp s pos p)"

definition gen_forces :: "sim \<Rightarrow> (real \<Rightarrow> real) \<Rightarrow> vec list \<Rightarrow> vec list" where
  "gen_forces s G pos =
     accumulate (pairs s) (map (gen_force s G pos) (pairs s)) (replicate (natoms s) (0, 0))"

definition gen_compute ::
  "sim \<Rightarrow> (real \<Rightarrow> real) \<Rightarrow> (real \<Rightarrow> real) \<Rightarrow> vec list \<Rightarrow> error + real \<times> vec list" where
  "gen_compute s E G pos =
     (if index_error s pos then Inl IndexError
      else if \<exists>p \<in> set (pairs s). norm2 (disp s pos p) = 0 then Inl NonFinite
      else Inr (gen_energy s E pos, gen_forces s G pos))"

section \<open>Evaluating the small configuration\<close>

lemma combinations2_4: "combinations2 4 = [(0, 1), (0, 2), (0, 3), (1, 2), (1, 3), (2, 3)]"
  by (simp add: combinations2_def upt_rec)

lemma sim4_fields:
  "sigma sim4 = 1 / 2" "epsilon sim4 = 1" "mass sim4 = 2" "dt sim4 = 1 / 2"
  "atoms_per_dim sim4 = 2" "boxlength sim4 = 10" "cutoff sim4 = 3" "window sim4 = None"
  "coords sim4 = [(0, 0), (2, 0), (0, 4), (4, 4)]"
  "last_coords sim4 = [(0, 0), (2, 0), (0, 4), (4, 4)]"
  "timestep sim4 = 0" "timeseries sim4 = [0]" "PEs sim4 = [0]" "KEs sim4 = [0]" "TEs sim4 = [0]"
  by (simp_all add: sim4_def)

lemma pairs_sim4: "pairs sim4 = [(0, 1), (0, 2), (0, 3), (1, 2), (1, 3), (2, 3)]"
  by (simp add: pairs_def natoms_def sim4_fields combinations2_4)

lemma displacements_sim4:
  "displacements sim4 [(0, 0), (2, 0), (0, 4), (4, 4)]
     = [(2, 0), (0, 4), (4, 4), (- 2, 4), (2, 4), (4, 0)]"
  by (simp add: displacements_def pairs_sim4 apply_periodicity_def wrap_def vsub_def boxinv_def
        sim4_fields)

lemma replicate4: "replicate 4 x = [x, x, x, x]"
  by (simp add: numeral_eq_Suc)

lemma upd2: "[a, b, c, d][2 := x] = [a, b, x, d]" "[a, b, c, d][3 := x] = [a, b, c, x]"
  by (simp_all add: numeral_eq_Suc)

lemma compute_cutoff_sim4:
  "compute_energy_and_gradient_cutoff sim4 [(0, 0), (2, 0), (0, 4), (4, 4)]
     = Inr (- (63 / 1024), [(- (93 / 512), 0), (93 / 512, 0), (0, 0), (0, 0)])"
  by (simp add: compute_energy_and_gradient_cutoff_def index_error_def pairs_sim4 displacements_sim4
        pairenergies_cutoff_def pairforces_cutoff_def norm2_def lj_cutoff_def Let_def
        vscale_def vadd_def vsub_def natoms_def cutoff2_def sig2_def sigmaij_def foureps_def
        sim4_fields power2_eq_square replicate4 upd2)

lemma compute_sim4:
  "compute_energy_and_gradient sim4 [(0, 0), (2, 0), (0, 4), (4, 4)]
     = Inr (- (63 / 1024), [(- (93 / 512), 0), (93 / 512, 0), (0, 0), (0, 0)])"
  by (simp add: compute_energy_and_gradient_def sim4_fields compute_cutoff_sim4)

lemma propagate_sim4: "propagate sim4 = Inr sim4_next"
  by (simp add: propagate_def sim4_fields compute_sim4 Let_def minv_def vscale_def vadd_def vsub_def
      norm2_def sim4_next_def apply_periodicity_def wrap_def boxinv_def)

lemma propagate_n_1_sim4: "propagate_n (Suc 0) sim4 = Inr sim4_next"
  by (simp add: propagate_sim4)

section \<open>General facts about the evaluators and the Verlet step\<close>


lemma length_accumulate: "length (accumulate ps fs forces) = length forces"
  by (induction ps fs forces rule: accumulate.induct) (simp_all add: Let_def)

lemma compute_length:
  assumes "compute_energy_and_gradient s pos = Inr (PE, gradient)"
  shows "length gradient = natoms s"
  using assms
  by (auto simp: compute_energy_and_gradient_def compute_energy_and_gradient_cutoff_def
      compute_energy_and_gradient_switch_def Let_def length_accumulate
      split: option.splits if_splits)

lemma propagate_Inr:
  assumes "propagate s = Inr s'"
  obtains PE gradient where
    "compute_energy_and_gradient s (coords s) = Inr (PE, gradient)"
    "length (last_coords s) = length (coords s)" "length gradient = length (coords s)"
    "dt s \<noteq> 0"
    "s' = s\<lparr>last_coords := coords s,
            coords := verlet s (coords s) (last_coords s) gradient,
            coorddata := map (apply_periodicity s) (verlet s (coords s) (last_coords s) gradient),
            timestep := timestep s + dt s,
            timeseries := timeseries s @ [timestep s + dt s],
            PEs := PEs s @ [PE],
            KEs := KEs s @ [1 / 2 * mass s * sum_list (map norm2
                     (map (\<lambda>d. (fst d / (2 * dt s), snd d / (2 * dt s)))
                        (map2 vsub (verlet s (coords s) (last_coords s) gradient) (last_coords s))))],
            TEs := TEs s @ [PE + 1 / 2 * mass s * sum_list (map norm2
                     (map (\<lambda>d. (fst d / (2 * dt s), snd d / (2 * dt s)))
                        (map2 vsub (verlet s (coords s) (last_coords s) gradient) (last_coords s))))]\<rparr>"
  using assms
  by (auto simp: propagate_def Let_def verlet_def minv_def split: sum.splits if_splits prod.splits)

lemma propagate_total:
  assumes "compute_energy_and_gradient s (coords s) = Inr (PE, gradient)"
    and "length (last_coords s) = length (coords s)" and "natoms s = length (coords s)"
    and "dt s \<noteq> 0"
  shows "\<exists>s'. propagate s = Inr s'"
  using assms compute_length [OF assms(1)]
  by (simp add: propagate_def Let_def)

lemma same_config_refl: "same_config s s"
  by (simp add: same_config_def)


lemma same_config_trans: "same_config s t \<Longrightarrow> same_config t u \<Longrightarrow> same_config s u"
  by (simp add: same_config_def)




lemma propagate_same_config:
  assumes "propagate s = Inr s'"
  shows "same_config s s'"
  using assms by (rule propagate_Inr) (simp add: same_config_def)







section \<open>Periodicity: the minimum-image bound\<close>

lemma wrap_round: "boxlength s \<noteq> 0 \<Longrightarrow>
    wrap s d = d - boxlength s * of_int (round (d / boxlength s))"
  by (simp add: wrap_def boxinv_def round_def)

lemma wrap_bound:
  assumes "0 < boxlength s"
  shows "\<bar>wrap s d\<bar> \<le> boxlength s / 2"
proof -
  define L where "L = boxlength s"
  define m where "m = \<lfloor>d / L + 1 / 2\<rfloor>"
  have L: "0 < L" using assms by (simp add: L_def)
  have lo: "of_int m \<le> d / L + 1 / 2" unfolding m_def by (rule of_int_floor_le)
  have hi: "d / L + 1 / 2 < of_int m + 1" unfolding m_def by linarith
  from lo L have a: "- (L / 2) \<le> d - L * of_int m"
    by (simp add: field_simps)
  from hi L have b: "d - L * of_int m \<le> L / 2"
    by (simp add: field_simps)
  from a b have "\<bar>d - L * of_int m\<bar> \<le> L / 2"
    by linarith
  then show ?thesis
    by (simp add: wrap_def boxinv_def L_def m_def)
qed

subsection \<open>Double precision\<close>

text \<open>
  Within a binade the rounding is to a multiple of a known power of two, which gives the
  value of \<open>binary64\<close> without searching for the exponent.
\<close>

lemma pow2_powr: "pow2 e = 2 powr (of_int e)"
proof (cases "0 \<le> e")
  case True
  then show ?thesis
    by (simp add: pow2_def powr_realpow [symmetric])
next
  case False
  then have "(2 :: real) powr (of_int e) = 1 / 2 powr (of_int (- e))"
    by (simp add: powr_minus_divide)
  also have "\<dots> = 1 / 2 ^ nat (- e)"
    using False by (simp add: powr_realpow [symmetric])
  finally show ?thesis using False by (simp add: pow2_def)
qed

lemma pow2_less: "pow2 a < pow2 b \<longleftrightarrow> a < b"
  by (simp add: pow2_powr)

lemma pow2_le: "pow2 a \<le> pow2 b \<longleftrightarrow> a \<le> b"
  by (simp add: pow2_powr)

lemma find_expo_eq:
  assumes "- 1022 \<le> e" "e \<le> int n - 1022" "pow2 e \<le> a" "a < pow2 (e + 1)"
  shows "find_expo n a = e"
  using assms
proof (induction n)
  case 0
  then show ?case by simp
next
  case (Suc n)
  show ?case
  proof (cases "pow2 (int (Suc n) - 1022) \<le> a")
    case True
    then have "pow2 (int (Suc n) - 1022) < pow2 (e + 1)"
      using Suc.prems(4) by simp
    then have "int (Suc n) - 1022 < e + 1" by (simp only: pow2_less)
    then show ?thesis using True Suc.prems(2) by simp
  next
    case False
    then have "pow2 e < pow2 (int (Suc n) - 1022)"
      using Suc.prems(3) by simp
    then have "e < int (Suc n) - 1022" by (simp only: pow2_less)
    then have "e \<le> int n - 1022" by simp
    from Suc.IH [OF Suc.prems(1) this Suc.prems(3,4)] show ?thesis
      using False by simp
  qed
qed

lemma binary64_normal:
  assumes "- 1022 \<le> e" "e \<le> 1023" "pow2 e \<le> \<bar>x\<bar>" "\<bar>x\<bar> < pow2 (e + 1)"
  shows "binary64 x =
     (let y = of_int (round_even (x / pow2 (e - 52))) * pow2 (e - 52)
      in if pow2 1024 \<le> \<bar>y\<bar> then None else Some y)"
proof -
  have "expo x = e"
    unfolding expo_def using assms by (intro find_expo_eq) simp_all
  then show ?thesis by (simp add: binary64_def Let_def)
qed

text \<open>
  The double next below 5 in the box of length 10: each operation of the line, then the
  line. In exact arithmetic the component is left as it is.
\<close>

lemma binary64_tenth: "binary64 (1 / 10) = Some (3602879701896397 / 36028797018963968)"
  by (subst binary64_normal [where e = "- 4"]) (simp_all add: pow2_def round_even_def Let_def)

lemma binary64_below_five: "binary64 (5 - 1 / 2 ^ 50) = Some (5 - 1 / 2 ^ 50)"
  by (subst binary64_normal [where e = 2]) (simp_all add: pow2_def round_even_def Let_def)

lemma binary64_quotient:
  "binary64 ((5 - 1 / 2 ^ 50) * (3602879701896397 / 36028797018963968)) = Some (1 / 2 - 1 / 2 ^ 54)"
  by (subst binary64_normal [where e = "- 2"]) (simp_all add: pow2_def round_even_def Let_def)

lemma binary64_tie: "binary64 (1 / 2 - 1 / 2 ^ 54 + 1 / 2) = Some 1"
  by (subst binary64_normal [where e = "- 1"]) (simp_all add: pow2_def round_even_def Let_def)

lemma binary64_ten: "binary64 10 = Some 10"
  by (subst binary64_normal [where e = 3]) (simp_all add: pow2_def round_even_def Let_def)

lemma binary64_difference: "binary64 (5 - 1 / 2 ^ 50 - 10) = Some (- (5 + 1 / 2 ^ 50))"
  by (subst binary64_normal [where e = 2]) (simp_all add: pow2_def round_even_def Let_def)

lemma wrap_double_below_five: "wrap_double sim4 (5 - 1 / 2 ^ 50) = Some (- (5 + 1 / 2 ^ 50))"
  using binary64_tenth binary64_quotient binary64_tie binary64_ten binary64_difference
  by (simp add: wrap_double_def boxinv_double_def sim4_fields)

lemma wrap_below_five: "wrap sim4 (5 - 1 / 2 ^ 50) = 5 - 1 / 2 ^ 50"
  by (simp add: wrap_def boxinv_def sim4_fields)

text \<open>
  A component far outside the box, \<open>d = 7680857914995474\<close>: the rounded quotient is half a
  unit too large, and the result is \<open>- 6\<close> where exact arithmetic gives 4.
\<close>

lemma binary64_large: "binary64 7680857914995474 = Some 7680857914995474"
  by (subst binary64_normal [where e = 52]) (simp_all add: pow2_def round_even_def Let_def)

lemma binary64_large_quotient:
  "binary64 (7680857914995474 * (3602879701896397 / 36028797018963968))
     = Some (1536171582999095 / 2)"
  by (subst binary64_normal [where e = 49]) (simp_all add: pow2_def round_even_def Let_def)

lemma binary64_large_half: "binary64 (1536171582999095 / 2 + 1 / 2) = Some 768085791499548"
  by (subst binary64_normal [where e = 49]) (simp_all add: pow2_def round_even_def Let_def)

lemma binary64_large_multiple:
  "binary64 (10 * 768085791499548) = Some 7680857914995480"
  by (subst binary64_normal [where e = 52]) (simp_all add: pow2_def round_even_def Let_def)

lemma binary64_large_difference:
  "binary64 (7680857914995474 - 7680857914995480) = Some (- 6)"
  by (subst binary64_normal [where e = 2]) (simp_all add: pow2_def round_even_def Let_def)

lemma wrap_double_large: "wrap_double sim4 7680857914995474 = Some (- 6)"
  using binary64_tenth binary64_large_quotient binary64_large_half binary64_large_multiple
    binary64_large_difference
  by (simp add: wrap_double_def boxinv_double_def sim4_fields)

lemma wrap_large: "wrap sim4 7680857914995474 = 4"
  by (simp add: wrap_def boxinv_def sim4_fields)

text \<open>
  In the box of length 3 the component \<open>- (3/2 + 2 ^ - 52)\<close>, the double next beyond
  \<open>- 3/2\<close>, is returned unchanged: the quotient rounds to \<open>- 1/2\<close> and no box length is
  subtracted.
\<close>

lemma binary64_zero: "binary64 0 = Some 0"
  by (simp add: binary64_def round_even_def pow2_def)

lemma binary64_third: "binary64 (1 / 3) = Some (6004799503160661 / 18014398509481984)"
  by (subst binary64_normal [where e = "- 2"]) (simp_all add: pow2_def round_even_def Let_def)

lemma binary64_above_three_halves:
  "binary64 (- (3 / 2 + 1 / 2 ^ 52)) = Some (- (3 / 2 + 1 / 2 ^ 52))"
  by (subst binary64_normal [where e = 0]) (simp_all add: pow2_def round_even_def Let_def)

lemma binary64_three_quotient:
  "binary64 (- (3 / 2 + 1 / 2 ^ 52) * (6004799503160661 / 18014398509481984)) = Some (- (1 / 2))"
  by (subst binary64_normal [where e = "- 1"]) (simp_all add: pow2_def round_even_def Let_def)

lemma wrap_double_three:
  "wrap_double (sim4\<lparr>boxlength := 3\<rparr>) (- (3 / 2 + 1 / 2 ^ 52)) = Some (- (3 / 2 + 1 / 2 ^ 52))"
  using binary64_third binary64_three_quotient binary64_zero binary64_above_three_halves
  by (simp add: wrap_double_def boxinv_double_def)

text \<open>
  Claim C8 says that for every displacement vector and every box length \<open>L > 0\<close> each
  component of the vector returned by \<open>apply_periodicity\<close> has magnitude at most \<open>L / 2\<close>
  and equals \<open>d - L * round (d / L)\<close>. Evaluated on doubles, as the program does, the bound
  fails: in the box of length 10 the component \<open>5 - 2 ^ - 50\<close>, the double next below 5,
  is returned as \<open>- (5 + 2 ^ - 50)\<close>. The quotient \<open>d * boxinv\<close> rounds to
  \<open>1/2 - 2 ^ - 54\<close>, adding \<open>0.5\<close> is a tie that rounds up to 1, and a whole box length is
  subtracted from a component that was inside the bound.
\<close>

theorem apply_periodicity_double_counterexample:
  "0 < boxlength sim4
   \<and> binary64 (boxlength sim4) = Some (boxlength sim4)
   \<and> binary64 (5 - 1 / 2 ^ 50) = Some (5 - 1 / 2 ^ 50)
   \<and> apply_periodicity_double sim4 (5 - 1 / 2 ^ 50, 5 - 1 / 2 ^ 50)
       = Some (- (5 + 1 / 2 ^ 50), - (5 + 1 / 2 ^ 50))
   \<and> \<not> \<bar>- (5 + 1 / 2 ^ 50)\<bar> \<le> boxlength sim4 / 2"
  using wrap_double_below_five binary64_below_five binary64_ten
  by (simp add: apply_periodicity_double_def sim4_fields)

text \<open>
  Claim C8, amended: in exact arithmetic, for every displacement vector and every box
  length \<open>L > 0\<close>, each component of the vector returned by \<open>apply_periodicity\<close> is the
  input component minus \<open>L\<close> times the nearest integer to \<open>d / L\<close>
  (\<open>d' = d - L * round (d / L)\<close>, computed per axis), and its magnitude is at most \<open>L / 2\<close>.
\<close>

theorem apply_periodicity_minimum_image:
  assumes "0 < boxlength s"
  shows "\<bar>fst (apply_periodicity s dR)\<bar> \<le> boxlength s / 2
       \<and> \<bar>snd (apply_periodicity s dR)\<bar> \<le> boxlength s / 2
       \<and> fst (apply_periodicity s dR)
           = fst dR - boxlength s * of_int (round (fst dR / boxlength s))
       \<and> snd (apply_periodicity s dR)
           = snd dR - boxlength s * of_int (round (snd dR / boxlength s))"
  using assms wrap_bound [OF assms] wrap_round [of s]
  by (simp add: apply_periodicity_def)

theorem apply_periodicity_minimum_image_witness:
  "0 < boxlength sim4
   \<and> apply_periodicity sim4 (7, - 26) = (- 3, 4)
   \<and> \<bar>fst (apply_periodicity sim4 (7, - 26))\<bar> \<le> boxlength sim4 / 2
   \<and> \<bar>snd (apply_periodicity sim4 (7, - 26))\<bar> \<le> boxlength sim4 / 2"
  using apply_periodicity_minimum_image [of sim4 "(7, - 26)"]
  by (simp add: apply_periodicity_def wrap_def boxinv_def sim4_fields)

section \<open>The pair list\<close>

lemma set_combinations2: "set (combinations2 n) = {(i, j). i < j \<and> j < n}"
  by (fastforce simp: combinations2_def)

lemma length_combinations2: "length (combinations2 n) = n * (n - 1) div 2"
proof -
  have "length (combinations2 n) = (\<Sum>i<n. n - Suc i)"
    by (simp add: combinations2_def length_concat comp_def interv_sum_list_conv_sum_set_nat atLeast0LessThan)
  also have "\<dots> = (\<Sum>i<n. i)"
    by (rule sum.nat_diff_reindex)
  also have "\<dots> = n * (n - 1) div 2"
    by (simp add: Sum_Ico_nat lessThan_atLeast0)
  finally show ?thesis .
qed

lemma distinct_concat_map:
  assumes "distinct xs"
    and "\<And>x. x \<in> set xs \<Longrightarrow> distinct (f x)"
    and "\<And>x y. x \<in> set xs \<Longrightarrow> y \<in> set xs \<Longrightarrow> x \<noteq> y \<Longrightarrow> set (f x) \<inter> set (f y) = {}"
  shows "distinct (concat (map f xs))"
  using assms by (induction xs) fastforce+

lemma distinct_combinations2: "distinct (combinations2 n)"
  unfolding combinations2_def
  by (rule distinct_concat_map) (auto simp: distinct_map inj_on_def)

lemma propagate_n_same_config:
  "propagate_n k s = Inr s' \<Longrightarrow> same_config s s'"
proof (induction k arbitrary: s)
  case 0
  then show ?case by (simp add: same_config_refl)
next
  case (Suc k)
  then obtain s1 where s1: "propagate s = Inr s1" "propagate_n k s1 = Inr s'"
    by (auto split: sum.splits)
  show ?case
    using propagate_same_config [OF s1(1)] Suc.IH [OF s1(2)] by (rule same_config_trans)
qed

lemma same_config_pairs: "same_config s t \<Longrightarrow> pairs t = pairs s"
  by (simp add: same_config_def pairs_def natoms_def)

text \<open>
  Claim C9. For every particle count \<open>n\<close> (in particular every \<open>n \<ge> 2\<close>) the pair list
  \<open>combinations2 n\<close> has exactly \<open>n (n - 1) / 2\<close> entries, no entry occurs twice, and its
  entries are exactly the pairs \<open>(i, j)\<close> with \<open>i < j < n\<close>: no self-pairs, every
  unordered pair of distinct indices once. The pair list of a simulation is this list for
  its particle count, and it is the same list after any number of Verlet steps.
\<close>

theorem pair_list_complete:
  "length (combinations2 n) = n * (n - 1) div 2
   \<and> distinct (combinations2 n)
   \<and> set (combinations2 n) = {(i, j). i < j \<and> j < n}
   \<and> pairs s = combinations2 (natoms s)
   \<and> (propagate_n k s = Inr s' \<longrightarrow> pairs s' = pairs s)"
  using length_combinations2 distinct_combinations2 set_combinations2
    same_config_pairs [OF propagate_n_same_config]
  by (simp add: pairs_def)

theorem pair_list_complete_witness:
  "propagate_n (Suc 0) sim4 = Inr sim4_next
   \<and> length (combinations2 4) = 6
   \<and> pairs sim4_next = pairs sim4"
  using pair_list_complete [of 4 sim4 "Suc 0" sim4_next] propagate_n_1_sim4
  by simp

section \<open>Switching window zero\<close>

lemma cutoff_window: "compute_energy_and_gradient_cutoff (s\<lparr>window := w\<rparr>) pos
    = compute_energy_and_gradient_cutoff s pos"
  by (simp add: compute_energy_and_gradient_cutoff_def index_error_def displacements_def
      pairs_def natoms_def apply_periodicity_def wrap_def boxinv_def pairenergies_cutoff_def
      pairforces_cutoff_def lj_cutoff_def cutoff2_def sig2_def sigmaij_def foureps_def)

lemma cutoff_no_zero_division:
  "compute_energy_and_gradient_cutoff s pos \<noteq> Inl ZeroDivisionError"
  by (simp add: compute_energy_and_gradient_cutoff_def Let_def)

lemma switch_formula_window_zero:
  "compute_energy_and_gradient_switch s 0 pos = Inl ZeroDivisionError"
  by (simp add: compute_energy_and_gradient_switch_def ron2_of_def cutoff2_def)

text \<open>
  Claim C3. A switched simulation whose window is 0 returns, for every position array,
  the same result as the hard-cutoff evaluator with the same parameters (the evaluator of
  the object with the window removed, and the cutoff evaluator on the object itself), and
  never ends in a division by zero: the quotient \<open>1 / (roff2 - ron2)\<^sup>3\<close> of the switching
  formula, which is a division by zero at window 0, is not evaluated. (A pair at distance
  zero makes \<^verbatim>\<open>1.0/r2\<close> non-finite in the hard-cutoff evaluator; the result is then
  \<open>NonFinite\<close> on both sides of the equation.)
\<close>

theorem window_zero_is_cutoff:
  assumes "window s = Some 0"
  shows "compute_energy_and_gradient s pos
           = compute_energy_and_gradient (s\<lparr>window := None\<rparr>) pos
       \<and> compute_energy_and_gradient s pos = compute_energy_and_gradient_cutoff s pos
       \<and> compute_energy_and_gradient s pos \<noteq> Inl ZeroDivisionError"
  using assms cutoff_no_zero_division [of s pos]
  by (simp add: compute_energy_and_gradient_def cutoff_window)

theorem window_zero_is_cutoff_witness:
  "window (sim4\<lparr>window := Some 0\<rparr>) = Some 0
   \<and> compute_energy_and_gradient (sim4\<lparr>window := Some 0\<rparr>) [(0, 0), (2, 0), (0, 4), (4, 4)]
       = Inr (- (63 / 1024), [(- (93 / 512), 0), (93 / 512, 0), (0, 0), (0, 0)])"
  using window_zero_is_cutoff [of "sim4\<lparr>window := Some 0\<rparr>" "[(0, 0), (2, 0), (0, 4), (4, 4)]"]
    compute_cutoff_sim4
  by (simp add: compute_energy_and_gradient_def cutoff_window)

section \<open>Construction with a cutoff that is too long\<close>

lemma combinations2_empty: "combinations2 n = [] \<longleftrightarrow> n < 2"
proof -
  have "combinations2 n = [] \<longleftrightarrow> length (combinations2 n) = 0" by simp
  also have "\<dots> \<longleftrightarrow> n * (n - 1) div 2 = 0" by (simp only: length_combinations2)
  also have "\<dots> \<longleftrightarrow> n < 2"
  proof
    assume a: "n * (n - 1) div 2 = 0"
    show "n < 2"
    proof (rule ccontr)
      assume "\<not> n < 2"
      then have "2 \<le> n" by simp
      then have "2 * 1 \<le> n * (n - 1)" by (intro mult_le_mono) auto
      then show False using a by simp
    qed
  next
    assume "n < 2"
    then have "n = 0 \<or> n = 1" by auto
    then show "n * (n - 1) div 2 = 0" by auto
  qed
  finally show ?thesis .
qed

lemma compute_no_NameError:
  "compute_energy_and_gradient s pos \<noteq> Inl (NameError x)"
  by (simp add: compute_energy_and_gradient_def compute_energy_and_gradient_cutoff_def
      compute_energy_and_gradient_switch_def Let_def split: option.splits)

lemma init_cutoff_check:
  assumes "2 \<le> n" "L \<noteq> 0" "m \<noteq> 0"
  shows "MDSimulation_init sg ep m T h n L rc ns win rand normal = Inl (NameError ''ValidationError'')
         \<longleftrightarrow> L / 2 \<le> rc"
proof -
  have "2 * 2 \<le> n * n" using assms(1) by (intro mult_le_mono) auto
  then have n: "\<not> n\<^sup>2 < 2" by (simp add: power2_eq_square)
  show ?thesis
    using assms n compute_no_NameError
    by (auto simp: MDSimulation_init_def Let_def pairs_def natoms_def combinations2_empty
        split: sum.splits prod.splits)
qed

text \<open>
  Claim C6 asks that a construction with \<open>cutoff \<ge> boxlength / 2\<close> fails with a
  configuration error that indicates the violated constraint. The constructor reaches
  \<^verbatim>\<open>raise ValidationError("The cutoff must be less than boxlength/2")\<close>, and as the name
  \<^verbatim>\<open>ValidationError\<close> is not defined, the exception that leaves the constructor is a
  \<^verbatim>\<open>NameError\<close> about that name: here for 25 atoms, box length 3 and cutoff 1.5, for
  every random draw.
\<close>

theorem init_cutoff_too_long:
  "MDSimulation_init (27 / 100) (3 / 10) 2 300 (5 / 1000) 5 3 (3 / 2) 400 None rand normal
     = Inl (NameError ''ValidationError'')"
  by (simp add: MDSimulation_init_def Let_def pairs_def natoms_def combinations2_empty)

section \<open>The Verlet step\<close>

lemma step_record_fields:
  "KEs (s\<lparr>last_coords := a, coords := b, coorddata := c, timestep := d, timeseries := e,
          PEs := f, KEs := g, TEs := h\<rparr>) = g"
  "TEs (s\<lparr>last_coords := a, coords := b, coorddata := c, timestep := d, timeseries := e,
          PEs := f, KEs := g, TEs := h\<rparr>) = h"
  by simp_all

text \<open>
  Claim C5. Every call of \<open>propagate\<close> that returns evaluates the potential at the current
  positions and, with acceleration \<open>- gradient / mass\<close>, sets
  \<open>new_position = 2 * current - previous + dt\<^sup>2 * acceleration\<close>, recovers the velocity
  \<open>(new_position - previous) / (2 * dt)\<close>, computes the kinetic energy
  \<open>1/2 * mass * \<Sum> v\<^sup>2\<close>, makes the old current positions the previous ones and
  \<open>new_position\<close> the current ones, advances the time by \<open>dt\<close> and appends one entry to
  each of the four energy series: time, potential, kinetic, potential + kinetic. The call
  returns whenever the evaluator returns finite values, both position arrays have
  \<open>natoms\<close> rows and \<open>dt\<close> is not zero.
\<close>

theorem propagate_step:
  "(propagate s = Inr s' \<longrightarrow>
      (\<exists>PE gradient.
         compute_energy_and_gradient s (coords s) = Inr (PE, gradient)
         \<and> (let acceleration = map (vscale (- (1 / mass s))) gradient;
                 new_position =
                   map2 vadd (map2 vsub (map (vscale 2) (coords s)) (last_coords s))
                     (map (vscale ((dt s)\<^sup>2)) acceleration);
                 v = map (\<lambda>d. (fst d / (2 * dt s), snd d / (2 * dt s)))
                       (map2 vsub new_position (last_coords s));
                 kinetic = 1 / 2 * mass s * (\<Sum>u\<leftarrow>v. (fst u)\<^sup>2 + (snd u)\<^sup>2)
             in coords s' = new_position
                \<and> last_coords s' = coords s
                \<and> timestep s' = timestep s + dt s
                \<and> timeseries s' = timeseries s @ [timestep s + dt s]
                \<and> PEs s' = PEs s @ [PE]
                \<and> KEs s' = KEs s @ [kinetic]
                \<and> TEs s' = TEs s @ [PE + kinetic])))
   \<and> (compute_energy_and_gradient s (coords s) = Inr (PE0, gradient0)
        \<and> length (last_coords s) = length (coords s) \<and> length (coords s) = natoms s
        \<and> dt s \<noteq> 0
      \<longrightarrow> (\<exists>s'. propagate s = Inr s'))"
proof (intro conjI impI)
  assume "propagate s = Inr s'"
  then obtain PE gradient where
    g: "compute_energy_and_gradient s (coords s) = Inr (PE, gradient)"
    and s': "s' = s\<lparr>last_coords := coords s,
            coords := verlet s (coords s) (last_coords s) gradient,
            coorddata := map (apply_periodicity s) (verlet s (coords s) (last_coords s) gradient),
            timestep := timestep s + dt s,
            timeseries := timeseries s @ [timestep s + dt s],
            PEs := PEs s @ [PE],
            KEs := KEs s @ [1 / 2 * mass s * sum_list (map norm2
                     (map (\<lambda>d. (fst d / (2 * dt s), snd d / (2 * dt s)))
                        (map2 vsub (verlet s (coords s) (last_coords s) gradient) (last_coords s))))],
            TEs := TEs s @ [PE + 1 / 2 * mass s * sum_list (map norm2
                     (map (\<lambda>d. (fst d / (2 * dt s), snd d / (2 * dt s)))
                        (map2 vsub (verlet s (coords s) (last_coords s) gradient) (last_coords s))))]\<rparr>"
    by (rule propagate_Inr) blast
  let ?np = "map2 vadd (map2 vsub (map (vscale 2) (coords s)) (last_coords s))
        (map (vscale ((dt s)\<^sup>2)) (map (vscale (- (1 / mass s))) gradient))"
  let ?ke = "1 / 2 * mass s * (\<Sum>u\<leftarrow>map (\<lambda>d. (fst d / (2 * dt s), snd d / (2 * dt s)))
        (map2 vsub ?np (last_coords s)). (fst u)\<^sup>2 + (snd u)\<^sup>2)"
  have n: "norm2 = (\<lambda>u. (fst u)\<^sup>2 + (snd u)\<^sup>2)"
    by (simp add: fun_eq_iff norm2_def power2_eq_square)
  have vl: "verlet s (coords s) (last_coords s) gradient = ?np"
    by (simp only: verlet_def power2_eq_square)
  note s'' = s' [unfolded vl n]
  have 1: "coords s' = ?np" by (subst s'') simp
  have 2: "last_coords s' = coords s" by (subst s'') simp
  have 3: "timestep s' = timestep s + dt s" by (subst s'') simp
  have 4: "timeseries s' = timeseries s @ [timestep s + dt s]" by (subst s'') simp
  have 5: "PEs s' = PEs s @ [PE]" by (subst s'') simp
  have 6: "KEs s' = KEs s @ [?ke]" by (subst s'') (rule step_record_fields)
  have 7: "TEs s' = TEs s @ [PE + ?ke]" by (subst s'') (rule step_record_fields)
  show "\<exists>PE gradient.
         compute_energy_and_gradient s (coords s) = Inr (PE, gradient)
         \<and> (let acceleration = map (vscale (- (1 / mass s))) gradient;
                 new_position =
                   map2 vadd (map2 vsub (map (vscale 2) (coords s)) (last_coords s))
                     (map (vscale ((dt s)\<^sup>2)) acceleration);
                 v = map (\<lambda>d. (fst d / (2 * dt s), snd d / (2 * dt s)))
                       (map2 vsub new_position (last_coords s));
                 kinetic = 1 / 2 * mass s * (\<Sum>u\<leftarrow>v. (fst u)\<^sup>2 + (snd u)\<^sup>2)
             in coords s' = new_position
                \<and> last_coords s' = coords s
                \<and> timestep s' = timestep s + dt s
                \<and> timeseries s' = timeseries s @ [timestep s + dt s]
                \<and> PEs s' = PEs s @ [PE]
                \<and> KEs s' = KEs s @ [kinetic]
                \<and> TEs s' = TEs s @ [PE + kinetic])"
    unfolding Let_def
    apply (rule exI [of _ PE])
    apply (rule exI [of _ gradient])
    apply (intro conjI)
           apply (rule g)
          apply (rule 1)
         apply (rule 2)
        apply (rule 3)
       apply (rule 4)
      apply (rule 5)
     apply (rule 6)
    apply (rule 7)
    done
next
  assume "compute_energy_and_gradient s (coords s) = Inr (PE0, gradient0)
        \<and> length (last_coords s) = length (coords s) \<and> length (coords s) = natoms s
        \<and> dt s \<noteq> 0"
  then have "compute_energy_and_gradient s (coords s) = Inr (PE0, gradient0)"
    "length (last_coords s) = length (coords s)" "natoms s = length (coords s)" "dt s \<noteq> 0"
    by (blast, blast, metis, blast)
  then show "\<exists>s'. propagate s = Inr s'"
    by (rule propagate_total)
qed

theorem propagate_step_witness:
  "propagate sim4 = Inr sim4_next
   \<and> compute_energy_and_gradient sim4 (coords sim4)
       = Inr (- (63 / 1024), [(- (93 / 512), 0), (93 / 512, 0), (0, 0), (0, 0)])
   \<and> length (last_coords sim4) = length (coords sim4) \<and> length (coords sim4) = natoms sim4
   \<and> dt sim4 \<noteq> 0
   \<and> coords sim4_next = [(93 / 4096, 0), (8099 / 4096, 0), (0, 4), (4, 4)]
   \<and> last_coords sim4_next = coords sim4
   \<and> timestep sim4_next = timestep sim4 + dt sim4
   \<and> PEs sim4_next = PEs sim4 @ [- (63 / 1024)]
   \<and> TEs sim4_next = TEs sim4 @ [- (63 / 1024) + 8649 / 8388608]"
  using propagate_step [of sim4 sim4_next "- (63 / 1024)"
      "[(- (93 / 512), 0), (93 / 512, 0), (0, 0), (0, 0)]"]
    propagate_sim4 compute_sim4
  by (simp add: sim4_fields sim4_next_def natoms_def)

section \<open>Time reversal of the Verlet step\<close>



section \<open>Periodic images\<close>

lemma wrap_shift:
  assumes "boxlength s \<noteq> 0"
  shows "wrap s (d + of_int m * boxlength s) = wrap s d"
proof -
  have "(d + of_int m * boxlength s) * boxinv s + 1 / 2 = (d * boxinv s + 1 / 2) + of_int m"
    using assms by (simp add: boxinv_def field_simps)
  then have "\<lfloor>(d + of_int m * boxlength s) * boxinv s + 1 / 2\<rfloor> = \<lfloor>d * boxinv s + 1 / 2\<rfloor> + m"
    by (simp only: floor_add_int)
  then show ?thesis
    by (simp add: wrap_def algebra_simps)
qed

lemma apply_periodicity_translate:
  assumes "boxlength s \<noteq> 0"
  shows "apply_periodicity s (vsub (translate s m n p) q) = apply_periodicity s (vsub p q)"
    and "apply_periodicity s (vsub q (translate s m n p)) = apply_periodicity s (vsub q p)"
    and "apply_periodicity s (vsub (translate s m n p) (translate s m n p)) = apply_periodicity s (vsub p p)"
proof -
  have a: "x + of_int k * boxlength s - y = (x - y) + of_int k * boxlength s" for x y :: real and k
    by simp
  have b: "y - (x + of_int k * boxlength s) = (y - x) + of_int (- k) * boxlength s" for x y :: real and k
    by (simp add: algebra_simps)
  show "apply_periodicity s (vsub (translate s m n p) q) = apply_periodicity s (vsub p q)"
    by (simp add: apply_periodicity_def vsub_def translate_def a wrap_shift [OF assms])
  show "apply_periodicity s (vsub q (translate s m n p)) = apply_periodicity s (vsub q p)"
    by (simp add: apply_periodicity_def vsub_def translate_def b wrap_shift [OF assms] del: of_int_minus)
  show "apply_periodicity s (vsub (translate s m n p) (translate s m n p)) = apply_periodicity s (vsub p p)"
    by (simp add: vsub_def)
qed

lemma displacements_translate:
  assumes "boxlength s \<noteq> 0"
  shows "displacements s (pos[k := translate s m n (pos ! k)]) = displacements s pos"
proof (cases "k < length pos")
  case False
  then show ?thesis by (simp add: list_update_beyond not_less)
next
  case True
  have "apply_periodicity s (vsub (pos[k := translate s m n (pos ! k)] ! j)
            (pos[k := translate s m n (pos ! k)] ! i))
        = apply_periodicity s (vsub (pos ! j) (pos ! i))" for i j
    using True apply_periodicity_translate [OF assms]
    by (cases "i = k"; cases "j = k") (simp_all add: nth_list_update)
  then show ?thesis
    by (simp add: displacements_def)
qed

lemma evaluators_depend_on_displacements:
  assumes "displacements s pos' = displacements s pos" "length pos' = length pos"
  shows "compute_energy_and_gradient_cutoff s pos' = compute_energy_and_gradient_cutoff s pos"
    and "compute_energy_and_gradient_switch s w pos' = compute_energy_and_gradient_switch s w pos"
    and "compute_energy_and_gradient s pos' = compute_energy_and_gradient s pos"
proof -
  show c: "compute_energy_and_gradient_cutoff s pos' = compute_energy_and_gradient_cutoff s pos"
    using assms by (simp add: compute_energy_and_gradient_cutoff_def index_error_def
        pairenergies_cutoff_def pairforces_cutoff_def)
  show w: "compute_energy_and_gradient_switch s w pos' = compute_energy_and_gradient_switch s w pos" for w
    using assms by (simp add: compute_energy_and_gradient_switch_def index_error_def
        pairenergies_switch_def pairforces_switch_def)
  show "compute_energy_and_gradient s pos' = compute_energy_and_gradient s pos"
    by (simp add: compute_energy_and_gradient_def c w split: option.splits)
qed

text \<open>
  Claim C10. A Verlet step stores the new positions as the recurrence gives them, not
  wrapped into the box; the wrapped positions go to the plot data only. Inside the
  evaluators the wrapping is applied to the pair displacements, and moving one particle
  by integer multiples of the box length along the axes (\<open>m\<close> box lengths along x and \<open>n\<close>
  along y) changes nothing in the result of the hard-cutoff evaluator, of the switched
  evaluator, or of the evaluator the object selects.
\<close>

theorem positions_unwrapped_translation_invariant:
  "(propagate s = Inr s' \<longrightarrow>
      (\<exists>PE gradient. compute_energy_and_gradient s (coords s) = Inr (PE, gradient)
         \<and> coords s' = verlet s (coords s) (last_coords s) gradient
         \<and> last_coords s' = coords s
         \<and> coorddata s' = map (apply_periodicity s) (coords s')))
   \<and> (boxlength s \<noteq> 0 \<longrightarrow>
        compute_energy_and_gradient_cutoff s (pos[k := translate s m n (pos ! k)])
          = compute_energy_and_gradient_cutoff s pos
        \<and> compute_energy_and_gradient_switch s w (pos[k := translate s m n (pos ! k)])
          = compute_energy_and_gradient_switch s w pos
        \<and> compute_energy_and_gradient s (pos[k := translate s m n (pos ! k)])
          = compute_energy_and_gradient s pos)"
proof (intro conjI impI)
  assume "propagate s = Inr s'"
  then show "\<exists>PE gradient. compute_energy_and_gradient s (coords s) = Inr (PE, gradient)
         \<and> coords s' = verlet s (coords s) (last_coords s) gradient
         \<and> last_coords s' = coords s
         \<and> coorddata s' = map (apply_periodicity s) (coords s')"
    by (rule propagate_Inr) simp
next
  assume L: "boxlength s \<noteq> 0"
  note d = displacements_translate [OF L, of pos k m n]
  show "compute_energy_and_gradient_cutoff s (pos[k := translate s m n (pos ! k)])
          = compute_energy_and_gradient_cutoff s pos"
    by (rule evaluators_depend_on_displacements(1) [OF d]) simp
  show "compute_energy_and_gradient_switch s w (pos[k := translate s m n (pos ! k)])
          = compute_energy_and_gradient_switch s w pos"
    by (rule evaluators_depend_on_displacements(2) [OF d]) simp
  show "compute_energy_and_gradient s (pos[k := translate s m n (pos ! k)])
          = compute_energy_and_gradient s pos"
    by (rule evaluators_depend_on_displacements(3) [OF d]) simp
qed

theorem positions_unwrapped_translation_invariant_witness:
  "propagate sim4 = Inr sim4_next
   \<and> boxlength sim4 \<noteq> 0
   \<and> coords sim4_next = [(93 / 4096, 0), (8099 / 4096, 0), (0, 4), (4, 4)]
   \<and> [(0, 0), (2, 0), (0, 4), (4, 4)][1 := translate sim4 1 (- 2) ([(0, 0), (2, 0), (0, 4), (4, 4)] ! 1)]
       = [(0, 0), (12, - 20), (0, 4), (4, 4)]
   \<and> compute_energy_and_gradient sim4 [(0, 0), (12, - 20), (0, 4), (4, 4)]
       = Inr (- (63 / 1024), [(- (93 / 512), 0), (93 / 512, 0), (0, 0), (0, 0)])"
  using positions_unwrapped_translation_invariant
      [of sim4 sim4_next "[(0, 0), (2, 0), (0, 4), (4, 4)]" 1 1 "- 2"]
    propagate_sim4 compute_sim4
  by (simp add: translate_def sim4_fields sim4_next_def)

section \<open>Hard cutoff: pair contributions\<close>

lemma lj_cutoff_beyond: "r2 > cutoff2 s \<Longrightarrow> lj_cutoff s r2 = (0, 0)"
  by (simp add: lj_cutoff_def)

lemma lennard_jones_r2:
  assumes "0 < r2"
  shows "lennard_jones eps sig (sqrt r2) = 4 * eps * ((sig\<^sup>2 / r2) ^ 6 - (sig\<^sup>2 / r2) ^ 3)"
proof -
  have "(sig / sqrt r2)\<^sup>2 = sig\<^sup>2 / r2"
    using assms by (simp add: power_divide)
  moreover have "(sig / sqrt r2) ^ 12 = ((sig / sqrt r2)\<^sup>2) ^ 6"
    "(sig / sqrt r2) ^ 6 = ((sig / sqrt r2)\<^sup>2) ^ 3"
    by (simp_all add: power_mult [symmetric])
  ultimately show ?thesis
    by (simp add: lennard_jones_def)
qed

lemma lj_cutoff_within:
  assumes "r2 \<le> cutoff2 s"
  shows "lj_cutoff s r2 =
     (foureps s * (sig2 s / r2) ^ 6 - foureps s * (sig2 s / r2) ^ 3,
      6 * (1 / r2) * (2 * (foureps s * (sig2 s / r2) ^ 6) - foureps s * (sig2 s / r2) ^ 3))"
  using assms by (simp add: lj_cutoff_def Let_def power3_eq_cube power_def algebra_simps numeral_eq_Suc)

lemma lj_cutoff_lennard_jones:
  assumes "0 < r2" "r2 \<le> cutoff2 s"
  shows "fst (lj_cutoff s r2) = lennard_jones (epsilon s) (2 * sigma s) (sqrt r2)"
  using assms
  by (simp add: lj_cutoff_within lennard_jones_r2 sig2_def sigmaij_def foureps_def algebra_simps)

lemma norm2_nonneg: "0 \<le> norm2 d"
  by (simp add: norm2_def)

lemma length_displacements: "length (displacements s pos) = length (pairs s)"
  by (simp add: displacements_def)

lemma compute_cutoff_Inr:
  assumes "compute_energy_and_gradient_cutoff s pos = Inr (energy, forces)"
  shows "energy = sum_list (pairenergies_cutoff s pos)"
    and "forces = accumulate (pairs s) (pairforces_cutoff s pos) (replicate (natoms s) (0, 0))"
    and "\<forall>dR \<in> set (displacements s pos). norm2 dR \<noteq> 0"
    and "\<not> index_error s pos"
  using assms
  by (auto simp: compute_energy_and_gradient_cutoff_def Let_def list_ex_iff split: if_splits)

text \<open>
  Claim C2. When the hard-cutoff evaluator returns, the energy is the sum of the pair
  energies and the forces are accumulated from the pair forces; a pair whose
  minimum-image squared distance \<open>r2\<close> exceeds \<open>cutoff\<^sup>2\<close> has pair energy 0 and pair
  force \<open>(0, 0)\<close>, so that adding it to one atom's entry \<open>f\<close> and subtracting it from the
  other's changes neither, and a pair with \<open>r2 \<le> cutoff\<^sup>2\<close> has the Lennard-Jones energy
  \<open>4 \<epsilon> ((\<sigma>\<^sub>p / r)\<^sup>1\<^sup>2 - (\<sigma>\<^sub>p / r)\<^sup>6)\<close> with \<open>\<sigma>\<^sub>p = 2 \<sigma>\<close> and \<open>r = sqrt r2\<close>.
\<close>

theorem cutoff_pair_contribution:
  assumes "compute_energy_and_gradient_cutoff s pos = Inr (energy, forces)"
    and "n < length (pairs s)"
  shows "energy = sum_list (pairenergies_cutoff s pos)
       \<and> forces = accumulate (pairs s) (pairforces_cutoff s pos) (replicate (natoms s) (0, 0))
       \<and> length (pairenergies_cutoff s pos) = length (pairs s)
       \<and> length (pairforces_cutoff s pos) = length (pairs s)
       \<and> (let r2 = norm2 (displacements s pos ! n) in
            (r2 > (cutoff s)\<^sup>2 \<longrightarrow>
               pairenergies_cutoff s pos ! n = 0 \<and> pairforces_cutoff s pos ! n = (0, 0)
               \<and> vadd f (pairforces_cutoff s pos ! n) = f
               \<and> vsub f (pairforces_cutoff s pos ! n) = f)
          \<and> (r2 \<le> (cutoff s)\<^sup>2 \<longrightarrow>
               pairenergies_cutoff s pos ! n
                 = lennard_jones (epsilon s) (2 * sigma s) (sqrt r2)))"
proof -
  let ?d = "displacements s pos ! n"
  have n: "n < length (displacements s pos)"
    using assms(2) by (simp add: length_displacements)
  then have "?d \<in> set (displacements s pos)" by simp
  then have "norm2 ?d \<noteq> 0" using compute_cutoff_Inr(3) [OF assms(1)] by blast
  then have pos: "0 < norm2 ?d" using norm2_nonneg [of ?d] by simp
  have e: "pairenergies_cutoff s pos ! n = fst (lj_cutoff s (norm2 ?d))"
    and f: "pairforces_cutoff s pos ! n = vscale (snd (lj_cutoff s (norm2 ?d))) ?d"
    using n by (simp_all add: pairenergies_cutoff_def pairforces_cutoff_def)
  have "norm2 ?d > (cutoff s)\<^sup>2 \<Longrightarrow>
      pairenergies_cutoff s pos ! n = 0 \<and> pairforces_cutoff s pos ! n = (0, 0)
      \<and> vadd f (pairforces_cutoff s pos ! n) = f \<and> vsub f (pairforces_cutoff s pos ! n) = f"
    by (simp add: e f lj_cutoff_beyond cutoff2_def vscale_def vadd_def vsub_def)
  moreover have "norm2 ?d \<le> (cutoff s)\<^sup>2 \<Longrightarrow>
      pairenergies_cutoff s pos ! n = lennard_jones (epsilon s) (2 * sigma s) (sqrt (norm2 ?d))"
    using pos by (simp add: e lj_cutoff_lennard_jones cutoff2_def)
  ultimately show ?thesis
    using compute_cutoff_Inr(1,2) [OF assms(1)]
    by (simp add: Let_def pairenergies_cutoff_def pairforces_cutoff_def length_displacements
        vadd_def vsub_def)
qed

theorem cutoff_pair_contribution_witness:
  "compute_energy_and_gradient_cutoff sim4 [(0, 0), (2, 0), (0, 4), (4, 4)]
     = Inr (- (63 / 1024), [(- (93 / 512), 0), (93 / 512, 0), (0, 0), (0, 0)])
   \<and> 1 < length (pairs sim4)
   \<and> norm2 (displacements sim4 [(0, 0), (2, 0), (0, 4), (4, 4)] ! 0) = 4
   \<and> 4 \<le> (cutoff sim4)\<^sup>2
   \<and> pairenergies_cutoff sim4 [(0, 0), (2, 0), (0, 4), (4, 4)] ! 0 = lennard_jones 1 1 2
   \<and> norm2 (displacements sim4 [(0, 0), (2, 0), (0, 4), (4, 4)] ! 1) = 16
   \<and> 16 > (cutoff sim4)\<^sup>2
   \<and> pairforces_cutoff sim4 [(0, 0), (2, 0), (0, 4), (4, 4)] ! 1 = (0, 0)"
proof -
  let ?pos = "[(0, 0), (2, 0), (0, 4), (4, 4)] :: vec list"
  have l: "0 < length (pairs sim4)" "1 < length (pairs sim4)"
    by (simp_all add: pairs_sim4)
  have r: "norm2 (displacements sim4 ?pos ! 0) = 4" "norm2 (displacements sim4 ?pos ! 1) = 16"
    by (simp_all add: displacements_sim4 norm2_def)
  have c: "4 \<le> (cutoff sim4)\<^sup>2" "16 > (cutoff sim4)\<^sup>2"
    by (simp_all add: sim4_fields)
  have e: "pairenergies_cutoff sim4 ?pos ! 0 = lennard_jones 1 1 2"
    using cutoff_pair_contribution [OF compute_cutoff_sim4 l(1)] c
    by (simp add: Let_def r sim4_fields)
  have f: "pairforces_cutoff sim4 ?pos ! 1 = (0, 0)"
    using cutoff_pair_contribution [OF compute_cutoff_sim4 l(2)] c r
    by (simp add: Let_def)
  show ?thesis
    by (intro conjI) (rule compute_cutoff_sim4 l r c e f)+
qed
section \<open>Derivatives of the pair terms\<close>

lemma lj_formula_deriv:
  fixes A c x :: real
  assumes "x \<noteq> 0"
  shows "DERIV (\<lambda>y. A * (c / y) ^ 6 - A * (c / y) ^ 3) x
           :> - (6 * (1 / x) * (2 * (A * (c / x) ^ 6) - A * (c / x) ^ 3)) / 2"
proof -
  have h: "DERIV (\<lambda>y. c / y) x :> - (c / (x * x))"
    using assms by (auto intro!: derivative_eq_intros simp: field_simps)
  have p6: "DERIV (\<lambda>y. (c / y) ^ 6) x :> 6 * (c / x) ^ 5 * (- (c / (x * x)))"
    using DERIV_power [OF h, of 6] by (simp add: mult_ac)
  have p3: "DERIV (\<lambda>y. (c / y) ^ 3) x :> 3 * (c / x) ^ 2 * (- (c / (x * x)))"
    using DERIV_power [OF h, of 3] by (simp add: mult_ac)
  have "DERIV (\<lambda>y. A * (c / y) ^ 6 - A * (c / y) ^ 3) x
      :> A * (6 * (c / x) ^ 5 * (- (c / (x * x)))) - A * (3 * (c / x) ^ 2 * (- (c / (x * x))))"
    by (rule DERIV_diff [OF DERIV_cmult [OF p6] DERIV_cmult [OF p3]])
  moreover have "A * (6 * (c / x) ^ 5 * (- (c / (x * x)))) - A * (3 * (c / x) ^ 2 * (- (c / (x * x))))
      = - (6 * (1 / x) * (2 * (A * (c / x) ^ 6) - A * (c / x) ^ 3)) / 2"
    using assms by (simp add: field_simps eval_nat_numeral)
  ultimately show ?thesis by simp
qed

lemma DERIV_glue:
  fixes f g :: "real \<Rightarrow> real"
  assumes "DERIV f a :> D" "DERIV g a :> D" "f a = g a"
  shows "DERIV (\<lambda>x. if x > a then g x else f x) a :> D"
proof -
  have f: "((\<lambda>y. (f y - f a) / (y - a)) \<longlongrightarrow> D) (at a)"
    and g: "((\<lambda>y. (g y - g a) / (y - a)) \<longlongrightarrow> D) (at a)"
    using assms(1,2) by (simp_all add: has_field_derivative_iff)
  have "((\<lambda>y. if y > a then (g y - g a) / (y - a) else (f y - f a) / (y - a)) \<longlongrightarrow> D) (at a)"
    by (rule filterlim_If) (rule tendsto_mono [OF inf_le1 g], rule tendsto_mono [OF inf_le1 f])
  moreover have "(\<lambda>y. if y > a then (g y - g a) / (y - a) else (f y - f a) / (y - a))
      = (\<lambda>y. ((if y > a then g y else f y) - (if a > a then g a else f a)) / (y - a))"
    using assms(3) by (auto simp: fun_eq_iff)
  ultimately show ?thesis
    by (simp add: has_field_derivative_iff)
qed

lemma DERIV_on_open:
  fixes f g :: "real \<Rightarrow> real"
  assumes "DERIV f a :> D" "open S" "a \<in> S" "\<And>x. x \<in> S \<Longrightarrow> f x = g x"
  shows "DERIV g a :> D"
  using assms by (rule has_field_derivative_transform_within_open)

lemma lj_cutoff_deriv:
  assumes "x \<noteq> 0" "x \<noteq> cutoff2 s"
  shows "DERIV (\<lambda>y. fst (lj_cutoff s y)) x :> - snd (lj_cutoff s x) / 2"
proof (cases "x > cutoff2 s")
  case True
  have "DERIV (\<lambda>y. 0 :: real) x :> 0" by simp
  then have "DERIV (\<lambda>y. fst (lj_cutoff s y)) x :> 0"
    by (rule DERIV_on_open [where S = "{cutoff2 s <..}"]) (use True in \<open>simp_all add: lj_cutoff_beyond\<close>)
  then show ?thesis using True by (simp add: lj_cutoff_beyond)
next
  case False
  then have lt: "x < cutoff2 s" using assms(2) by simp
  have "DERIV (\<lambda>y. foureps s * (sig2 s / y) ^ 6 - foureps s * (sig2 s / y) ^ 3) x
      :> - (6 * (1 / x) * (2 * (foureps s * (sig2 s / x) ^ 6) - foureps s * (sig2 s / x) ^ 3)) / 2"
    by (rule lj_formula_deriv [OF assms(1)])
  then have "DERIV (\<lambda>y. fst (lj_cutoff s y)) x
      :> - (6 * (1 / x) * (2 * (foureps s * (sig2 s / x) ^ 6) - foureps s * (sig2 s / x) ^ 3)) / 2"
    by (rule DERIV_on_open [where S = "{..< cutoff2 s}"]) (use lt in \<open>simp_all add: lj_cutoff_within\<close>)
  then show ?thesis using lt by (simp add: lj_cutoff_within)
qed

lemma switch_poly_deriv:
  "DERIV (switch_poly ron2 roff2 denom) x :> 6 * (x - roff2) * (x - ron2) * denom"
  unfolding switch_poly_def
  by (auto intro!: derivative_eq_intros simp: algebra_simps power2_eq_square)

lemma switch_poly_ends:
  assumes "ron2 \<noteq> roff2"
  shows "switch_poly ron2 roff2 (1 / (roff2 - ron2) ^ 3) ron2 = 1"
    and "switch_poly ron2 roff2 (1 / (roff2 - ron2) ^ 3) roff2 = 0"
  using assms by (simp_all add: switch_poly_def power3_eq_cube power2_eq_square)

lemma switch_deriv:
  assumes "ron2 < cutoff2 s" and d: "denom = 1 / (cutoff2 s - ron2) ^ 3"
  shows "DERIV (switch s ron2 (cutoff2 s) denom) x :> - dswitch s ron2 (cutoff2 s) denom x / 2"
proof -
  let ?roff2 = "cutoff2 s"
  let ?P = "switch_poly ron2 ?roff2 denom"
  let ?P' = "\<lambda>x. 6 * (x - ?roff2) * (x - ron2) * denom"
  define inner where "inner = (\<lambda>x. if x > ron2 then ?P x else 1)"
  have ends: "?P ron2 = 1" "?P ?roff2 = 0"
    using switch_poly_ends [of ron2 ?roff2] assms by simp_all
  have inner: "DERIV inner x :> (if x > ron2 then ?P' x else 0)" for x
  proof -
    consider "x < ron2" | "x = ron2" | "x > ron2" by linarith
    then show ?thesis
    proof cases
      case 1
      have "DERIV (\<lambda>y. 1 :: real) x :> 0" by simp
      then have "DERIV inner x :> 0"
        by (rule DERIV_on_open [where S = "{..< ron2}"]) (use 1 in \<open>simp_all add: inner_def\<close>)
      then show ?thesis using 1 by simp
    next
      case 2
      have "DERIV (\<lambda>y. if y > ron2 then ?P y else 1) ron2 :> 0"
        by (rule DERIV_glue) (use switch_poly_deriv [of ron2 ?roff2 denom ron2] ends in simp_all)
      then show ?thesis using 2 by (simp add: inner_def)
    next
      case 3
      have "DERIV inner x :> ?P' x"
        by (rule DERIV_on_open [OF switch_poly_deriv, where S = "{ron2 <..}"])
           (use 3 in \<open>simp_all add: inner_def\<close>)
      then show ?thesis using 3 by simp
    qed
  qed
  have sw: "switch s ron2 ?roff2 denom = (\<lambda>x. if x > ?roff2 then 0 else inner x)"
    by (simp add: fun_eq_iff switch_def inner_def switch_poly_def)
  have "DERIV (\<lambda>x. if x > ?roff2 then 0 else inner x) x
      :> (if x > ?roff2 then 0 else if x > ron2 then ?P' x else 0)"
  proof -
    consider "x < ?roff2" | "x = ?roff2" | "x > ?roff2" by linarith
    then show ?thesis
    proof cases
      case 1
      have "DERIV (\<lambda>x. if x > ?roff2 then 0 else inner x) x :> (if x > ron2 then ?P' x else 0)"
        by (rule DERIV_on_open [OF inner, where S = "{..< ?roff2}"]) (use 1 in simp_all)
      then show ?thesis using 1 by simp
    next
      case 2
      have "DERIV inner ?roff2 :> 0"
        using inner [of ?roff2] assms(1) by simp
      moreover have "inner ?roff2 = 0"
        using assms(1) ends by (simp add: inner_def)
      ultimately have "DERIV (\<lambda>x. if x > ?roff2 then 0 else inner x) ?roff2 :> 0"
        by (intro DERIV_glue) simp_all
      then show ?thesis using 2 assms(1) by simp
    next
      case 3
      have "DERIV (\<lambda>y. 0 :: real) x :> 0" by simp
      then have "DERIV (\<lambda>x. if x > ?roff2 then 0 else inner x) x :> 0"
        by (rule DERIV_on_open [where S = "{?roff2 <..}"]) (use 3 in simp_all)
      then show ?thesis using 3 by simp
    qed
  qed
  moreover have "(if x > ?roff2 then 0 else if x > ron2 then ?P' x else 0)
      = - dswitch s ron2 ?roff2 denom x / 2"
    by (auto simp: dswitch_def field_simps)
  ultimately show ?thesis by (simp only: sw)
qed

lemma lj_switch_eq:
  "lj_switch s ron2 roff2 denom x =
     (switch s ron2 roff2 denom x * (foureps s * (sig2 s / x) ^ 6 - foureps s * (sig2 s / x) ^ 3),
      6 * (1 / x) * switch s ron2 roff2 denom x
          * (2 * (foureps s * (sig2 s / x) ^ 6) - foureps s * (sig2 s / x) ^ 3)
        + dswitch s ron2 roff2 denom x
          * (foureps s * (sig2 s / x) ^ 6 - foureps s * (sig2 s / x) ^ 3))"
  by (simp add: lj_switch_def Let_def power3_eq_cube power_def algebra_simps numeral_eq_Suc)

lemma lj_switch_lennard_jones:
  assumes "0 < r2"
  shows "fst (lj_switch s ron2 roff2 denom r2)
     = lennard_jones (epsilon s) (2 * sigma s) (sqrt r2) * switch s ron2 roff2 denom r2"
  using assms
  by (simp add: lj_switch_eq lennard_jones_r2 sig2_def sigmaij_def foureps_def algebra_simps)

lemma lj_switch_deriv:
  assumes "x \<noteq> 0" "ron2 < cutoff2 s" "denom = 1 / (cutoff2 s - ron2) ^ 3"
  shows "DERIV (\<lambda>y. fst (lj_switch s ron2 (cutoff2 s) denom y)) x
           :> - snd (lj_switch s ron2 (cutoff2 s) denom x) / 2"
proof -
  let ?S = "switch s ron2 (cutoff2 s) denom"
  let ?L = "\<lambda>y. foureps s * (sig2 s / y) ^ 6 - foureps s * (sig2 s / y) ^ 3"
  have "DERIV (\<lambda>y. ?S y * ?L y) x
      :> (- dswitch s ron2 (cutoff2 s) denom x / 2) * ?L x
         + (- (6 * (1 / x) * (2 * (foureps s * (sig2 s / x) ^ 6) - foureps s * (sig2 s / x) ^ 3)) / 2)
             * ?S x"
    by (rule DERIV_mult [OF switch_deriv [OF assms(2,3)] lj_formula_deriv [OF assms(1)]])
  moreover have "(- dswitch s ron2 (cutoff2 s) denom x / 2) * ?L x
         + (- (6 * (1 / x) * (2 * (foureps s * (sig2 s / x) ^ 6) - foureps s * (sig2 s / x) ^ 3)) / 2)
             * ?S x = - snd (lj_switch s ron2 (cutoff2 s) denom x) / 2"
    by (simp add: lj_switch_eq algebra_simps diff_divide_distrib add_divide_distrib)
  ultimately show ?thesis
    by (simp only: lj_switch_eq fst_conv)
qed

lemma switch_beyond: "r2 > cutoff2 s \<Longrightarrow> switch s ron2 roff2 denom r2 = 0"
  "r2 > cutoff2 s \<Longrightarrow> dswitch s ron2 roff2 denom r2 = 0"
  by (simp_all add: switch_def dswitch_def)

lemma lj_switch_beyond: "r2 > cutoff2 s \<Longrightarrow> lj_switch s ron2 roff2 denom r2 = (0, 0)"
  by (simp add: lj_switch_eq switch_beyond)

lemma window_ron2:
  assumes "0 < w" "w < 2 * cutoff s"
  shows "ron2_of s w < cutoff2 s"
proof -
  have "0 < w * (2 * cutoff s - w)"
    using assms by simp
  moreover have "(cutoff s)\<^sup>2 - (cutoff s - w)\<^sup>2 = w * (2 * cutoff s - w)"
    by (simp add: power2_eq_square algebra_simps)
  ultimately show ?thesis by (simp add: ron2_of_def cutoff2_def)
qed

lemma dswitch_nonneg:
  assumes "ron2 < cutoff2 s" "denom = 1 / (cutoff2 s - ron2) ^ 3"
  shows "0 \<le> dswitch s ron2 (cutoff2 s) denom x"
proof -
  have "0 < denom" using assms by simp
  moreover have "ron2 < x \<Longrightarrow> x \<le> cutoff2 s \<Longrightarrow> 0 \<le> (cutoff2 s - x) * (x - ron2)"
    by simp
  ultimately have "ron2 < x \<Longrightarrow> x \<le> cutoff2 s \<Longrightarrow> 0 \<le> 12 * ((cutoff2 s - x) * (x - ron2)) * denom"
    by simp
  then show ?thesis
    by (auto simp: dswitch_def algebra_simps)
qed

lemma compute_switch_Inr:
  assumes "compute_energy_and_gradient_switch s w pos = Inr (energy, forces)"
  shows "energy = sum_list (pairenergies_switch s w pos)"
    and "forces = accumulate (pairs s) (pairforces_switch s w pos) (replicate (natoms s) (0, 0))"
    and "\<forall>dR \<in> set (displacements s pos). norm2 dR \<noteq> 0"
    and "\<not> index_error s pos"
    and "ron2_of s w \<noteq> cutoff2 s"
  using assms
  by (auto simp: compute_energy_and_gradient_switch_def Let_def list_ex_iff split: if_splits)

section \<open>The wrapped displacement as a function of one coordinate\<close>

lemma wrap_deriv:
  assumes "u * boxinv s + 1 / 2 \<notin> \<int>"
  shows "DERIV (wrap s) u :> 1"
proof -
  have "isCont (\<lambda>u. u * boxinv s + 1 / 2) u" by simp
  then have "DERIV (\<lambda>u. real_of_int \<lfloor>u * boxinv s + 1 / 2\<rfloor>) u :> 0"
    using assms by (rule floor_has_real_derivative)
  then have "DERIV (\<lambda>u. u - boxlength s * real_of_int \<lfloor>u * boxinv s + 1 / 2\<rfloor>) u
      :> 1 - boxlength s * 0"
    by (intro DERIV_diff DERIV_cmult DERIV_ident)
  then show ?thesis
    by (simp add: wrap_def [abs_def])
qed

lemma wrap_at_jump:
  assumes "0 < boxlength s" "u * boxinv s + 1 / 2 \<in> \<int>"
  shows "wrap s u = - (boxlength s / 2)"
proof -
  from assms(2) obtain m :: int where m: "u * boxinv s + 1 / 2 = of_int m"
    by (auto elim: Ints_cases)
  then have "u = (of_int m - 1 / 2) * boxlength s"
    using assms(1) by (simp add: boxinv_def field_simps)
  then show ?thesis
    by (simp add: wrap_def m algebra_simps)
qed

lemma wrap_near_jump:
  assumes L: "0 < boxlength s" and j: "u0 * boxinv s + 1 / 2 \<in> \<int>"
    and d: "\<bar>u - u0\<bar> < boxlength s"
  shows "(wrap s u)\<^sup>2 = (boxlength s / 2 - \<bar>u - u0\<bar>)\<^sup>2"
proof -
  let ?L = "boxlength s"
  from j obtain m :: int where m: "u0 * boxinv s + 1 / 2 = of_int m"
    by (auto elim: Ints_cases)
  then have u0: "u0 = (of_int m - 1 / 2) * ?L"
    using L by (simp add: boxinv_def field_simps)
  have arg: "u * boxinv s + 1 / 2 = of_int m + (u - u0) / ?L"
    using L by (simp add: boxinv_def u0 field_simps)
  show ?thesis
  proof (cases "u0 \<le> u")
    case True
    then have "0 \<le> (u - u0) / ?L" "(u - u0) / ?L < 1" using L d by simp_all
    then have "\<lfloor>u * boxinv s + 1 / 2\<rfloor> = m"
      unfolding arg by (intro floor_unique) simp_all
    then have w: "wrap s u = (u - u0) - ?L / 2"
      by (simp add: wrap_def u0 algebra_simps)
    have "\<bar>u - u0\<bar> = u - u0" using True by simp
    then show ?thesis unfolding w by (simp add: power2_commute)
  next
    case False
    then have "- 1 \<le> (u - u0) / ?L" "(u - u0) / ?L < 0" using L d
      by (simp_all add: field_simps)
    then have "\<lfloor>u * boxinv s + 1 / 2\<rfloor> = m - 1"
      unfolding arg by (intro floor_unique) simp_all
    then have "wrap s u = u - ?L * (of_int m - 1)"
      by (simp add: wrap_def)
    then have w: "wrap s u = (u - u0) + ?L / 2"
      by (simp add: u0 algebra_simps)
    have "\<bar>u - u0\<bar> = - (u - u0)" using False by simp
    then show ?thesis unfolding w by (simp add: algebra_simps)
  qed
qed

lemma wrap_sq_cont:
  assumes L: "0 < boxlength s"
  shows "isCont (\<lambda>u. (wrap s u)\<^sup>2) u0"
proof (cases "u0 * boxinv s + 1 / 2 \<in> \<int>")
  case False
  then have "isCont (wrap s) u0"
    using wrap_deriv DERIV_isCont by blast
  then show ?thesis by (intro continuous_intros)
next
  case True
  have c: "isCont (\<lambda>u. (boxlength s / 2 - \<bar>u - u0\<bar>)\<^sup>2) u0"
    by (intro continuous_intros)
  have ev: "\<forall>\<^sub>F u in nhds u0. (wrap s u)\<^sup>2 = (boxlength s / 2 - \<bar>u - u0\<bar>)\<^sup>2"
  proof -
    have "\<forall>\<^sub>F u in nhds u0. dist u u0 < boxlength s"
      using L by (rule eventually_nhds_metric [THEN iffD2, OF exI [of _ "boxlength s"], OF conjI]) simp
    then show ?thesis
      by eventually_elim (simp add: dist_real_def wrap_near_jump [OF L True])
  qed
  show ?thesis
    unfolding isCont_cong [OF ev] by (rule c)
qed

lemma pair_term_deriv:
  fixes E G :: "real \<Rightarrow> real"
  assumes L: "0 < boxlength s" and cut: "cutoff2 s < (boxlength s / 2)\<^sup>2"
    and beyond: "\<And>x. x > cutoff2 s \<Longrightarrow> E x = 0 \<and> G x = 0"
    and c: "c = 1 \<or> c = - 1"
    and r0: "r0 = (wrap s (c * t0 + a))\<^sup>2 + b\<^sup>2"
    and der: "r0 \<le> cutoff2 s \<Longrightarrow> DERIV E r0 :> - G r0 / 2"
  shows "DERIV (\<lambda>t. E ((wrap s (c * t + a))\<^sup>2 + b\<^sup>2)) t0 :> - c * G r0 * wrap s (c * t0 + a)"
proof (cases "r0 > cutoff2 s")
  case True
  have "isCont (\<lambda>t. c * t + a) t0" by simp
  then have "isCont (\<lambda>t. (wrap s (c * t + a))\<^sup>2) t0"
    by (rule isCont_o2 [where g = "\<lambda>u. (wrap s u)\<^sup>2" and f = "\<lambda>t. c * t + a"])
       (rule wrap_sq_cont [OF L])
  from isCont_add [OF this, of "\<lambda>t. b\<^sup>2"]
  have "isCont (\<lambda>t. (wrap s (c * t + a))\<^sup>2 + b\<^sup>2) t0"
    by simp
  then have "((\<lambda>t. (wrap s (c * t + a))\<^sup>2 + b\<^sup>2) \<longlongrightarrow> r0) (at t0)"
    by (simp add: isCont_def r0)
  then have "\<forall>\<^sub>F t in at t0. cutoff2 s < (wrap s (c * t + a))\<^sup>2 + b\<^sup>2"
    using True by (rule order_tendstoD)
  then have ev: "\<forall>\<^sub>F t in at t0. E ((wrap s (c * t + a))\<^sup>2 + b\<^sup>2) = 0"
    by eventually_elim (simp add: beyond)
  have "E ((wrap s (c * t0 + a))\<^sup>2 + b\<^sup>2) = 0"
    using True beyond by (simp add: r0)
  then have "DERIV (\<lambda>t. E ((wrap s (c * t + a))\<^sup>2 + b\<^sup>2)) t0 :> 0
      \<longleftrightarrow> DERIV (\<lambda>t. 0) t0 :> 0"
    by (rule has_field_derivative_cong_eventually [OF ev])
  then have "DERIV (\<lambda>t. E ((wrap s (c * t + a))\<^sup>2 + b\<^sup>2)) t0 :> 0"
    by simp
  then show ?thesis using True beyond by simp
next
  case False
  then have le: "r0 \<le> cutoff2 s" by simp
  have "(wrap s (c * t0 + a))\<^sup>2 \<le> r0" by (simp add: r0)
  then have "(wrap s (c * t0 + a))\<^sup>2 < (boxlength s / 2)\<^sup>2"
    using le cut by simp
  then have "wrap s (c * t0 + a) \<noteq> - (boxlength s / 2)" by auto
  then have "(c * t0 + a) * boxinv s + 1 / 2 \<notin> \<int>"
    using wrap_at_jump [OF L] by blast
  then have w: "DERIV (wrap s) (c * t0 + a) :> 1" by (rule wrap_deriv)
  have aff: "DERIV (\<lambda>t. c * t + a) t0 :> c"
    by (auto intro!: derivative_eq_intros)
  have "DERIV (\<lambda>t. wrap s (c * t + a)) t0 :> 1 * c"
    by (rule DERIV_chain2 [where f = "wrap s" and g = "\<lambda>t. c * t + a", OF w aff])
  then have sq: "DERIV (\<lambda>t. (wrap s (c * t + a))\<^sup>2 + b\<^sup>2) t0 :> 2 * wrap s (c * t0 + a) * c"
    by (auto intro!: derivative_eq_intros)
  have "DERIV E ((wrap s (c * t0 + a))\<^sup>2 + b\<^sup>2) :> - G r0 / 2"
    using der [OF le] by (simp only: r0)
  then have "DERIV (\<lambda>t. E ((wrap s (c * t + a))\<^sup>2 + b\<^sup>2)) t0
      :> (- G r0 / 2) * (2 * wrap s (c * t0 + a) * c)"
    by (rule DERIV_chain2 [where f = E and g = "\<lambda>t. (wrap s (c * t + a))\<^sup>2 + b\<^sup>2", OF _ sq])
  then show ?thesis by (simp add: algebra_simps)
qed

lemma DERIV_sum_list:
  fixes f :: "'a \<Rightarrow> real \<Rightarrow> real"
  assumes "\<And>p. p \<in> set ps \<Longrightarrow> DERIV (f p) t0 :> D p"
  shows "DERIV (\<lambda>t. \<Sum>p\<leftarrow>ps. f p t) t0 :> (\<Sum>p\<leftarrow>ps. D p)"
  using assms
proof (induction ps)
  case Nil
  then show ?case by simp
next
  case (Cons p ps)
  then show ?case by (auto intro!: DERIV_add)
qed

lemma accumulate_nth:
  assumes "k < length forces" "length fs = length ps" "\<forall>p \<in> set ps. fst p \<noteq> snd p"
  shows "fst (accumulate ps fs forces ! k)
           = fst (forces ! k) + (\<Sum>(p, f)\<leftarrow>zip ps fs. fst (contrib k p f))
       \<and> snd (accumulate ps fs forces ! k)
           = snd (forces ! k) + (\<Sum>(p, f)\<leftarrow>zip ps fs. snd (contrib k p f))"
  using assms
proof (induction ps fs forces rule: accumulate.induct)
  case (1 iind jind ps f fs forces)
  let ?F = "(forces[iind := vadd (forces ! iind) f])[jind := vsub (forces[iind := vadd (forces ! iind) f] ! jind) f]"
  have k: "k < length ?F" using "1.prems"(1) by simp
  have ne: "iind \<noteq> jind" using "1.prems"(3) by simp
  have step: "?F ! k = vadd (forces ! k) (contrib k (iind, jind) f)"
    using "1.prems"(1) ne
    by (auto simp: contrib_def nth_list_update vadd_def vsub_def vscale_def)
  show ?case
    using "1.IH" [unfolded Let_def, OF k] "1.prems"(2,3) step by (simp add: Let_def vadd_def)
qed simp_all

lemma displacements_disp: "displacements s pos = map (disp s pos) (pairs s)"
  by (simp add: displacements_def disp_def case_prod_beta)

lemma disp_x:
  assumes "k < length pos" "fst p \<noteq> snd p"
  shows "norm2 (disp s (pos[k := (t, snd (pos ! k))]) p) =
    (if fst p = k then (wrap s (- 1 * t + fst (pos ! snd p)))\<^sup>2 + (wrap s (snd (pos ! snd p) - snd (pos ! k)))\<^sup>2
     else if snd p = k then (wrap s (1 * t + - fst (pos ! fst p)))\<^sup>2 + (wrap s (snd (pos ! k) - snd (pos ! fst p)))\<^sup>2
     else norm2 (disp s pos p))"
  using assms
  by (auto simp: disp_def nth_list_update apply_periodicity_def vsub_def norm2_def power2_eq_square)

lemma disp_y:
  assumes "k < length pos" "fst p \<noteq> snd p"
  shows "norm2 (disp s (pos[k := (fst (pos ! k), t)]) p) =
    (if fst p = k then (wrap s (- 1 * t + snd (pos ! snd p)))\<^sup>2 + (wrap s (fst (pos ! snd p) - fst (pos ! k)))\<^sup>2
     else if snd p = k then (wrap s (1 * t + - snd (pos ! fst p)))\<^sup>2 + (wrap s (fst (pos ! k) - fst (pos ! fst p)))\<^sup>2
     else norm2 (disp s pos p))"
  using assms
  by (auto simp: disp_def nth_list_update apply_periodicity_def vsub_def norm2_def power2_eq_square)

lemma disp_at:
  "disp s pos p = (wrap s (fst (pos ! snd p) - fst (pos ! fst p)),
                   wrap s (snd (pos ! snd p) - snd (pos ! fst p)))"
  by (simp add: disp_def apply_periodicity_def vsub_def)

lemma pair_deriv_x:
  fixes E G :: "real \<Rightarrow> real"
  assumes L: "0 < boxlength s" and cut: "cutoff2 s < (boxlength s / 2)\<^sup>2"
    and beyond: "\<And>x. x > cutoff2 s \<Longrightarrow> E x = 0 \<and> G x = 0"
    and k: "k < length pos" and p: "fst p \<noteq> snd p"
    and der: "norm2 (disp s pos p) \<le> cutoff2 s
                \<Longrightarrow> DERIV E (norm2 (disp s pos p)) :> - G (norm2 (disp s pos p)) / 2"
  shows "DERIV (\<lambda>t. E (norm2 (disp s (pos[k := (t, snd (pos ! k))]) p))) (fst (pos ! k))
           :> fst (contrib k p (gen_force s G pos p))"
proof -
  let ?r = "norm2 (disp s pos p)"
  consider "fst p = k" | "fst p \<noteq> k" "snd p = k" | "fst p \<noteq> k" "snd p \<noteq> k" by blast
  then show ?thesis
  proof cases
    case 1
    then have r: "?r = (wrap s (- 1 * fst (pos ! k) + fst (pos ! snd p)))\<^sup>2
        + (wrap s (snd (pos ! snd p) - snd (pos ! k)))\<^sup>2"
      by (simp add: disp_at norm2_def power2_eq_square)
    have d: "DERIV (\<lambda>t. E ((wrap s (- 1 * t + fst (pos ! snd p)))\<^sup>2
          + (wrap s (snd (pos ! snd p) - snd (pos ! k)))\<^sup>2)) (fst (pos ! k))
        :> - (- 1) * G ?r * wrap s (- 1 * fst (pos ! k) + fst (pos ! snd p))"
      by (rule pair_term_deriv [OF L cut beyond _ r der]) simp_all
    have fn: "(\<lambda>t. E (norm2 (disp s (pos[k := (t, snd (pos ! k))]) p)))
        = (\<lambda>t. E ((wrap s (- 1 * t + fst (pos ! snd p)))\<^sup>2
          + (wrap s (snd (pos ! snd p) - snd (pos ! k)))\<^sup>2))"
      using 1 by (simp only: disp_x [OF k p] if_True simp_thms)
    have val: "fst (contrib k p (gen_force s G pos p))
        = - (- 1) * G ?r * wrap s (- 1 * fst (pos ! k) + fst (pos ! snd p))"
      using 1 by (simp add: contrib_def gen_force_def vscale_def) (simp add: disp_at)
    show ?thesis
      unfolding fn val by (rule d)
  next
    case 2
    then have r: "?r = (wrap s (1 * fst (pos ! k) + - fst (pos ! fst p)))\<^sup>2
        + (wrap s (snd (pos ! k) - snd (pos ! fst p)))\<^sup>2"
      by (simp add: disp_at norm2_def power2_eq_square)
    have d: "DERIV (\<lambda>t. E ((wrap s (1 * t + - fst (pos ! fst p)))\<^sup>2
          + (wrap s (snd (pos ! k) - snd (pos ! fst p)))\<^sup>2)) (fst (pos ! k))
        :> - 1 * G ?r * wrap s (1 * fst (pos ! k) + - fst (pos ! fst p))"
      by (rule pair_term_deriv [OF L cut beyond _ r der]) simp_all
    have fn: "(\<lambda>t. E (norm2 (disp s (pos[k := (t, snd (pos ! k))]) p)))
        = (\<lambda>t. E ((wrap s (1 * t + - fst (pos ! fst p)))\<^sup>2
          + (wrap s (snd (pos ! k) - snd (pos ! fst p)))\<^sup>2))"
      using 2 by (simp only: disp_x [OF k p] if_True if_False simp_thms)
    have val: "fst (contrib k p (gen_force s G pos p))
        = - 1 * G ?r * wrap s (1 * fst (pos ! k) + - fst (pos ! fst p))"
      using 2 by (simp add: contrib_def gen_force_def vscale_def) (simp add: disp_at)
    show ?thesis
      unfolding fn val by (rule d)
  next
    case 3
    have fn: "(\<lambda>t. E (norm2 (disp s (pos[k := (t, snd (pos ! k))]) p)))
        = (\<lambda>t. E (norm2 (disp s pos p)))"
      using 3 by (simp only: disp_x [OF k p] if_False simp_thms)
    show ?thesis
      unfolding fn using 3 by (simp add: contrib_def)
  qed
qed

lemma pair_deriv_y:
  fixes E G :: "real \<Rightarrow> real"
  assumes L: "0 < boxlength s" and cut: "cutoff2 s < (boxlength s / 2)\<^sup>2"
    and beyond: "\<And>x. x > cutoff2 s \<Longrightarrow> E x = 0 \<and> G x = 0"
    and k: "k < length pos" and p: "fst p \<noteq> snd p"
    and der: "norm2 (disp s pos p) \<le> cutoff2 s
                \<Longrightarrow> DERIV E (norm2 (disp s pos p)) :> - G (norm2 (disp s pos p)) / 2"
  shows "DERIV (\<lambda>t. E (norm2 (disp s (pos[k := (fst (pos ! k), t)]) p))) (snd (pos ! k))
           :> snd (contrib k p (gen_force s G pos p))"
proof -
  let ?r = "norm2 (disp s pos p)"
  consider "fst p = k" | "fst p \<noteq> k" "snd p = k" | "fst p \<noteq> k" "snd p \<noteq> k" by blast
  then show ?thesis
  proof cases
    case 1
    then have r: "?r = (wrap s (- 1 * snd (pos ! k) + snd (pos ! snd p)))\<^sup>2
        + (wrap s (fst (pos ! snd p) - fst (pos ! k)))\<^sup>2"
      by (simp add: disp_at norm2_def power2_eq_square add.commute)
    have d: "DERIV (\<lambda>t. E ((wrap s (- 1 * t + snd (pos ! snd p)))\<^sup>2
          + (wrap s (fst (pos ! snd p) - fst (pos ! k)))\<^sup>2)) (snd (pos ! k))
        :> - (- 1) * G ?r * wrap s (- 1 * snd (pos ! k) + snd (pos ! snd p))"
      by (rule pair_term_deriv [OF L cut beyond _ r der]) simp_all
    have fn: "(\<lambda>t. E (norm2 (disp s (pos[k := (fst (pos ! k), t)]) p)))
        = (\<lambda>t. E ((wrap s (- 1 * t + snd (pos ! snd p)))\<^sup>2
          + (wrap s (fst (pos ! snd p) - fst (pos ! k)))\<^sup>2))"
      using 1 by (simp only: disp_y [OF k p] if_True simp_thms)
    have val: "snd (contrib k p (gen_force s G pos p))
        = - (- 1) * G ?r * wrap s (- 1 * snd (pos ! k) + snd (pos ! snd p))"
      using 1 by (simp add: contrib_def gen_force_def vscale_def) (simp add: disp_at)
    show ?thesis
      unfolding fn val by (rule d)
  next
    case 2
    then have r: "?r = (wrap s (1 * snd (pos ! k) + - snd (pos ! fst p)))\<^sup>2
        + (wrap s (fst (pos ! k) - fst (pos ! fst p)))\<^sup>2"
      by (simp add: disp_at norm2_def power2_eq_square add.commute)
    have d: "DERIV (\<lambda>t. E ((wrap s (1 * t + - snd (pos ! fst p)))\<^sup>2
          + (wrap s (fst (pos ! k) - fst (pos ! fst p)))\<^sup>2)) (snd (pos ! k))
        :> - 1 * G ?r * wrap s (1 * snd (pos ! k) + - snd (pos ! fst p))"
      by (rule pair_term_deriv [OF L cut beyond _ r der]) simp_all
    have fn: "(\<lambda>t. E (norm2 (disp s (pos[k := (fst (pos ! k), t)]) p)))
        = (\<lambda>t. E ((wrap s (1 * t + - snd (pos ! fst p)))\<^sup>2
          + (wrap s (fst (pos ! k) - fst (pos ! fst p)))\<^sup>2))"
      using 2 by (simp only: disp_y [OF k p] if_True if_False simp_thms)
    have val: "snd (contrib k p (gen_force s G pos p))
        = - 1 * G ?r * wrap s (1 * snd (pos ! k) + - snd (pos ! fst p))"
      using 2 by (simp add: contrib_def gen_force_def vscale_def) (simp add: disp_at)
    show ?thesis
      unfolding fn val by (rule d)
  next
    case 3
    have fn: "(\<lambda>t. E (norm2 (disp s (pos[k := (fst (pos ! k), t)]) p)))
        = (\<lambda>t. E (norm2 (disp s pos p)))"
      using 3 by (simp only: disp_y [OF k p] if_False simp_thms)
    show ?thesis
      unfolding fn using 3 by (simp add: contrib_def)
  qed
qed

section \<open>The gradient of the total energy\<close>

lemma compute_cutoff_gen:
  "compute_energy_and_gradient_cutoff s pos
     = gen_compute s (\<lambda>x. fst (lj_cutoff s x)) (\<lambda>x. snd (lj_cutoff s x)) pos"
  by (simp add: compute_energy_and_gradient_cutoff_def gen_compute_def gen_energy_def
      gen_forces_def gen_force_def [abs_def] pairenergies_cutoff_def pairforces_cutoff_def
      displacements_disp list_ex_iff comp_def Let_def)

lemma compute_switch_gen:
  "compute_energy_and_gradient_switch s w pos
     = (if (cutoff2 s - ron2_of s w) ^ 3 = 0 then Inl ZeroDivisionError
        else gen_compute s (\<lambda>x. fst (lj_switch s (ron2_of s w) (cutoff2 s) (denom_of s w) x))
               (\<lambda>x. snd (lj_switch s (ron2_of s w) (cutoff2 s) (denom_of s w) x)) pos)"
  by (simp add: compute_energy_and_gradient_switch_def gen_compute_def gen_energy_def
      gen_forces_def gen_force_def [abs_def] pairenergies_switch_def pairforces_switch_def
      displacements_disp list_ex_iff comp_def Let_def)

lemma pairs_ne: "p \<in> set (pairs s) \<Longrightarrow> fst p \<noteq> snd p"
  by (auto simp: pairs_def set_combinations2)

lemma gen_forces_nth:
  assumes "k < natoms s"
  shows "fst (gen_forces s G pos ! k) = (\<Sum>p\<leftarrow>pairs s. fst (contrib k p (gen_force s G pos p)))"
    and "snd (gen_forces s G pos ! k) = (\<Sum>p\<leftarrow>pairs s. snd (contrib k p (gen_force s G pos p)))"
proof -
  have z: "zip (pairs s) (map (gen_force s G pos) (pairs s))
      = map (\<lambda>p. (p, gen_force s G pos p)) (pairs s)"
    by (simp add: zip_map2 zip_same_conv_map)
  have "fst (gen_forces s G pos ! k) = fst (replicate (natoms s) (0, 0) ! k)
        + (\<Sum>(p, f)\<leftarrow>zip (pairs s) (map (gen_force s G pos) (pairs s)). fst (contrib k p f))
     \<and> snd (gen_forces s G pos ! k) = snd (replicate (natoms s) (0, 0) ! k)
        + (\<Sum>(p, f)\<leftarrow>zip (pairs s) (map (gen_force s G pos) (pairs s)). snd (contrib k p f))"
    using accumulate_nth [of k "replicate (natoms s) (0, 0)"
        "map (gen_force s G pos) (pairs s)" "pairs s"] assms pairs_ne
    by (simp add: gen_forces_def)
  then show "fst (gen_forces s G pos ! k) = (\<Sum>p\<leftarrow>pairs s. fst (contrib k p (gen_force s G pos p)))"
    and "snd (gen_forces s G pos ! k) = (\<Sum>p\<leftarrow>pairs s. snd (contrib k p (gen_force s G pos p)))"
    using assms by (simp_all add: z comp_def)
qed

lemma pair_cont_x:
  assumes L: "0 < boxlength s" and k: "k < length pos" and p: "fst p \<noteq> snd p"
  shows "isCont (\<lambda>t. norm2 (disp s (pos[k := (t, snd (pos ! k))]) p)) t0"
proof -
  have w: "isCont (\<lambda>t. (wrap s (c * t + a))\<^sup>2 + b) t0" for c a b
  proof -
    have "isCont (\<lambda>t. c * t + a) t0" by simp
    then have "isCont (\<lambda>t. (wrap s (c * t + a))\<^sup>2) t0"
      by (rule isCont_o2 [where g = "\<lambda>u. (wrap s u)\<^sup>2" and f = "\<lambda>t. c * t + a"])
         (rule wrap_sq_cont [OF L])
    from isCont_add [OF this, of "\<lambda>t. b"] show ?thesis by simp
  qed
  show ?thesis
    unfolding disp_x [OF k p]
    by (cases "fst p = k"; cases "snd p = k")
       (simp_all only: if_True if_False w simp_thms continuous_const)
qed

lemma pair_cont_y:
  assumes L: "0 < boxlength s" and k: "k < length pos" and p: "fst p \<noteq> snd p"
  shows "isCont (\<lambda>t. norm2 (disp s (pos[k := (fst (pos ! k), t)]) p)) t0"
proof -
  have w: "isCont (\<lambda>t. (wrap s (c * t + a))\<^sup>2 + b) t0" for c a b
  proof -
    have "isCont (\<lambda>t. c * t + a) t0" by simp
    then have "isCont (\<lambda>t. (wrap s (c * t + a))\<^sup>2) t0"
      by (rule isCont_o2 [where g = "\<lambda>u. (wrap s u)\<^sup>2" and f = "\<lambda>t. c * t + a"])
         (rule wrap_sq_cont [OF L])
    from isCont_add [OF this, of "\<lambda>t. b"] show ?thesis by simp
  qed
  show ?thesis
    unfolding disp_y [OF k p]
    by (cases "fst p = k"; cases "snd p = k")
       (simp_all only: if_True if_False w simp_thms continuous_const)
qed

lemma eventually_all_pairs_nonzero:
  fixes r :: "nat \<times> nat \<Rightarrow> real \<Rightarrow> real"
  assumes "\<And>p. p \<in> set ps \<Longrightarrow> isCont (r p) t0" "\<And>p. p \<in> set ps \<Longrightarrow> r p t0 \<noteq> 0"
  shows "\<forall>\<^sub>F t in at t0. \<forall>p \<in> set ps. r p t \<noteq> 0"
proof -
  have "\<forall>p \<in> set ps. \<forall>\<^sub>F t in at t0. r p t \<noteq> 0"
  proof
    fix p assume p: "p \<in> set ps"
    have "(r p \<longlongrightarrow> r p t0) (at t0)"
      using assms(1) [OF p] by (simp add: isCont_def)
    then show "\<forall>\<^sub>F t in at t0. r p t \<noteq> 0"
      using assms(2) [OF p] by (rule tendsto_imp_eventually_ne)
  qed
  then show ?thesis
    by (simp add: eventually_ball_finite)
qed

lemma gen_compute_Inr:
  assumes "gen_compute s E G pos = Inr (energy, forces)"
  shows "\<not> index_error s pos" "\<And>p. p \<in> set (pairs s) \<Longrightarrow> norm2 (disp s pos p) \<noteq> 0"
    "energy = gen_energy s E pos" "forces = gen_forces s G pos"
  using assms by (auto simp: gen_compute_def split: if_splits)

lemma index_error_update: "index_error s (pos[k := v]) = index_error s pos"
  by (simp add: index_error_def)

lemma energy_of_gen_compute:
  assumes "\<not> index_error s pos" "\<forall>p \<in> set (pairs s). norm2 (disp s pos p) \<noteq> 0"
  shows "energy_of (gen_compute s E G pos) = gen_energy s E pos"
  using assms by (auto simp: gen_compute_def energy_of_def)

lemma gen_gradient_x:
  fixes E G :: "real \<Rightarrow> real"
  assumes L: "0 < boxlength s" and cut: "cutoff2 s < (boxlength s / 2)\<^sup>2"
    and beyond: "\<And>x. x > cutoff2 s \<Longrightarrow> E x = 0 \<and> G x = 0"
    and k: "k < natoms s" and len: "length pos = natoms s"
    and ok: "gen_compute s E G pos = Inr (energy, forces)"
    and der: "\<And>p. p \<in> set (pairs s) \<Longrightarrow> norm2 (disp s pos p) \<le> cutoff2 s
                \<Longrightarrow> DERIV E (norm2 (disp s pos p)) :> - G (norm2 (disp s pos p)) / 2"
  shows "DERIV (\<lambda>t. energy_of (gen_compute s E G (pos[k := (t, snd (pos ! k))]))) (fst (pos ! k))
           :> fst (forces ! k)"
proof -
  let ?pos = "\<lambda>t. pos[k := (t, snd (pos ! k))]"
  let ?x0 = "fst (pos ! k)"
  have kl: "k < length pos" using k len by simp
  have id: "?pos ?x0 = pos" by simp
  note c = gen_compute_Inr [OF ok]
  have "DERIV (\<lambda>t. \<Sum>p\<leftarrow>pairs s. E (norm2 (disp s (?pos t) p))) ?x0
      :> (\<Sum>p\<leftarrow>pairs s. fst (contrib k p (gen_force s G pos p)))"
    by (rule DERIV_sum_list) (rule pair_deriv_x [OF L cut beyond kl pairs_ne der])
  then have D: "DERIV (\<lambda>t. gen_energy s E (?pos t)) ?x0 :> fst (forces ! k)"
    by (simp add: gen_energy_def c(4) gen_forces_nth [OF k])
  have "\<forall>\<^sub>F t in at ?x0. \<forall>p \<in> set (pairs s). norm2 (disp s (?pos t) p) \<noteq> 0"
  proof (rule eventually_all_pairs_nonzero)
    fix p assume p: "p \<in> set (pairs s)"
    show "isCont (\<lambda>t. norm2 (disp s (?pos t) p)) ?x0"
      by (rule pair_cont_x [OF L kl pairs_ne [OF p]])
    show "norm2 (disp s (?pos ?x0) p) \<noteq> 0"
      unfolding id by (rule c(2) [OF p])
  qed
  then have ev: "\<forall>\<^sub>F t in at ?x0.
      energy_of (gen_compute s E G (?pos t)) = gen_energy s E (?pos t)"
    by eventually_elim (rule energy_of_gen_compute, simp_all add: index_error_update c(1))
  have at0: "energy_of (gen_compute s E G (?pos ?x0)) = gen_energy s E (?pos ?x0)"
    unfolding id by (rule energy_of_gen_compute) (use c in auto)
  show ?thesis
    unfolding has_field_derivative_cong_eventually [OF ev at0] by (rule D)
qed

lemma gen_gradient_y:
  fixes E G :: "real \<Rightarrow> real"
  assumes L: "0 < boxlength s" and cut: "cutoff2 s < (boxlength s / 2)\<^sup>2"
    and beyond: "\<And>x. x > cutoff2 s \<Longrightarrow> E x = 0 \<and> G x = 0"
    and k: "k < natoms s" and len: "length pos = natoms s"
    and ok: "gen_compute s E G pos = Inr (energy, forces)"
    and der: "\<And>p. p \<in> set (pairs s) \<Longrightarrow> norm2 (disp s pos p) \<le> cutoff2 s
                \<Longrightarrow> DERIV E (norm2 (disp s pos p)) :> - G (norm2 (disp s pos p)) / 2"
  shows "DERIV (\<lambda>t. energy_of (gen_compute s E G (pos[k := (fst (pos ! k), t)]))) (snd (pos ! k))
           :> snd (forces ! k)"
proof -
  let ?pos = "\<lambda>t. pos[k := (fst (pos ! k), t)]"
  let ?x0 = "snd (pos ! k)"
  have kl: "k < length pos" using k len by simp
  have id: "?pos ?x0 = pos" by simp
  note c = gen_compute_Inr [OF ok]
  have "DERIV (\<lambda>t. \<Sum>p\<leftarrow>pairs s. E (norm2 (disp s (?pos t) p))) ?x0
      :> (\<Sum>p\<leftarrow>pairs s. snd (contrib k p (gen_force s G pos p)))"
    by (rule DERIV_sum_list) (rule pair_deriv_y [OF L cut beyond kl pairs_ne der])
  then have D: "DERIV (\<lambda>t. gen_energy s E (?pos t)) ?x0 :> snd (forces ! k)"
    by (simp add: gen_energy_def c(4) gen_forces_nth [OF k])
  have "\<forall>\<^sub>F t in at ?x0. \<forall>p \<in> set (pairs s). norm2 (disp s (?pos t) p) \<noteq> 0"
  proof (rule eventually_all_pairs_nonzero)
    fix p assume p: "p \<in> set (pairs s)"
    show "isCont (\<lambda>t. norm2 (disp s (?pos t) p)) ?x0"
      by (rule pair_cont_y [OF L kl pairs_ne [OF p]])
    show "norm2 (disp s (?pos ?x0) p) \<noteq> 0"
      unfolding id by (rule c(2) [OF p])
  qed
  then have ev: "\<forall>\<^sub>F t in at ?x0.
      energy_of (gen_compute s E G (?pos t)) = gen_energy s E (?pos t)"
    by eventually_elim (rule energy_of_gen_compute, simp_all add: index_error_update c(1))
  have at0: "energy_of (gen_compute s E G (?pos ?x0)) = gen_energy s E (?pos ?x0)"
    unfolding id by (rule energy_of_gen_compute) (use c in auto)
  show ?thesis
    unfolding has_field_derivative_cong_eventually [OF ev at0] by (rule D)
qed

lemma forces_contrib:
  assumes "k < natoms s" "length fs = length (pairs s)"
  shows "fst (accumulate (pairs s) fs (replicate (natoms s) (0, 0)) ! k)
           = (\<Sum>(p, f)\<leftarrow>zip (pairs s) fs. fst (contrib k p f))"
    and "snd (accumulate (pairs s) fs (replicate (natoms s) (0, 0)) ! k)
           = (\<Sum>(p, f)\<leftarrow>zip (pairs s) fs. snd (contrib k p f))"
  using accumulate_nth [of k "replicate (natoms s) (0, 0)" fs "pairs s"] assms pairs_ne
  by simp_all

lemma cutoff_gradient:
  assumes L: "0 < boxlength s" and cut: "(cutoff s)\<^sup>2 < (boxlength s / 2)\<^sup>2"
    and k: "k < natoms s" and len: "length pos = natoms s"
    and ok: "compute_energy_and_gradient_cutoff s pos = Inr (energy, forces)"
    and nc: "\<forall>dR \<in> set (displacements s pos). norm2 dR \<noteq> (cutoff s)\<^sup>2"
  shows "DERIV (energy_x (compute_energy_and_gradient_cutoff s) pos k) (fst (pos ! k)) :> fst (forces ! k)"
    and "DERIV (energy_y (compute_energy_and_gradient_cutoff s) pos k) (snd (pos ! k)) :> snd (forces ! k)"
proof -
  let ?E = "\<lambda>x. fst (lj_cutoff s x)" and ?G = "\<lambda>x. snd (lj_cutoff s x)"
  have cut': "cutoff2 s < (boxlength s / 2)\<^sup>2" using cut by (simp add: cutoff2_def)
  have ok': "gen_compute s ?E ?G pos = Inr (energy, forces)"
    using ok by (simp only: compute_cutoff_gen)
  have beyond: "\<And>x. x > cutoff2 s \<Longrightarrow> ?E x = 0 \<and> ?G x = 0"
    by (simp add: lj_cutoff_beyond)
  have der: "DERIV ?E (norm2 (disp s pos p)) :> - ?G (norm2 (disp s pos p)) / 2"
    if p: "p \<in> set (pairs s)" for p
  proof (rule lj_cutoff_deriv)
    show "norm2 (disp s pos p) \<noteq> 0" by (rule gen_compute_Inr(2) [OF ok' p])
    show "norm2 (disp s pos p) \<noteq> cutoff2 s"
      using nc p by (simp add: displacements_disp cutoff2_def)
  qed
  show "DERIV (energy_x (compute_energy_and_gradient_cutoff s) pos k) (fst (pos ! k)) :> fst (forces ! k)"
    unfolding energy_x_def [abs_def] compute_cutoff_gen
    by (rule gen_gradient_x [OF L cut' beyond k len ok' der])
  show "DERIV (energy_y (compute_energy_and_gradient_cutoff s) pos k) (snd (pos ! k)) :> snd (forces ! k)"
    unfolding energy_y_def [abs_def] compute_cutoff_gen
    by (rule gen_gradient_y [OF L cut' beyond k len ok' der])
qed

lemma switch_gradient:
  assumes L: "0 < boxlength s" and cut: "(cutoff s)\<^sup>2 < (boxlength s / 2)\<^sup>2"
    and k: "k < natoms s" and len: "length pos = natoms s"
    and ok: "compute_energy_and_gradient_switch s w pos = Inr (energy, forces)"
    and w: "0 < w" "w < 2 * cutoff s"
  shows "DERIV (energy_x (compute_energy_and_gradient_switch s w) pos k) (fst (pos ! k)) :> fst (forces ! k)"
    and "DERIV (energy_y (compute_energy_and_gradient_switch s w) pos k) (snd (pos ! k)) :> snd (forces ! k)"
proof -
  let ?E = "\<lambda>x. fst (lj_switch s (ron2_of s w) (cutoff2 s) (denom_of s w) x)"
  let ?G = "\<lambda>x. snd (lj_switch s (ron2_of s w) (cutoff2 s) (denom_of s w) x)"
  have cut': "cutoff2 s < (boxlength s / 2)\<^sup>2" using cut by (simp add: cutoff2_def)
  have r: "ron2_of s w < cutoff2 s" by (rule window_ron2 [OF w])
  then have nz: "(cutoff2 s - ron2_of s w) ^ 3 \<noteq> 0" by simp
  have gen: "compute_energy_and_gradient_switch s w = gen_compute s ?E ?G"
    using nz by (simp add: fun_eq_iff compute_switch_gen)
  have ok': "gen_compute s ?E ?G pos = Inr (energy, forces)"
    using ok by (simp only: gen)
  have beyond: "\<And>x. x > cutoff2 s \<Longrightarrow> ?E x = 0 \<and> ?G x = 0"
    by (simp add: lj_switch_beyond)
  have der: "DERIV ?E (norm2 (disp s pos p)) :> - ?G (norm2 (disp s pos p)) / 2"
    if p: "p \<in> set (pairs s)" for p
    by (rule lj_switch_deriv [OF gen_compute_Inr(2) [OF ok' p] r]) (simp add: denom_of_def)
  show "DERIV (energy_x (compute_energy_and_gradient_switch s w) pos k) (fst (pos ! k)) :> fst (forces ! k)"
    unfolding energy_x_def [abs_def] gen
    by (rule gen_gradient_x [OF L cut' beyond k len ok' der])
  show "DERIV (energy_y (compute_energy_and_gradient_switch s w) pos k) (snd (pos ! k)) :> snd (forces ! k)"
    unfolding energy_y_def [abs_def] gen
    by (rule gen_gradient_y [OF L cut' beyond k len ok' der])
qed

section \<open>The small configuration with a switching window\<close>

lemma natoms_sim4: "natoms sim4 = 4"
  by (simp add: natoms_def sim4_fields)

lemma norms_sim4:
  "map norm2 (displacements sim4 [(0, 0), (2, 0), (0, 4), (4, 4)]) = [4, 16, 32, 20, 20, 16]"
  by (simp add: displacements_sim4 norm2_def)

lemma sim4_not_at_cutoff:
  "\<forall>dR \<in> set (displacements sim4 [(0, 0), (2, 0), (0, 4), (4, 4)]). norm2 dR \<noteq> (cutoff sim4)\<^sup>2"
  by (simp add: displacements_sim4 norm2_def sim4_fields)

lemma switch_consts_sim4: "ron2_of sim4 2 = 1" "cutoff2 sim4 = 9" "denom_of sim4 2 = 1 / 512"
  by (simp_all add: ron2_of_def cutoff2_def denom_of_def sim4_fields)

lemma compute_switch_sim4:
  "compute_energy_and_gradient_switch sim4 2 [(0, 0), (2, 0), (0, 4), (4, 4)]
     = Inr (- (11025 / 262144), [(- (21945 / 131072), 0), (21945 / 131072, 0), (0, 0), (0, 0)])"
  by (simp add: compute_energy_and_gradient_switch_def index_error_def pairs_sim4 displacements_sim4
        pairenergies_switch_def pairforces_switch_def norm2_def lj_switch_def switch_def dswitch_def
        Let_def switch_consts_sim4
        vscale_def vadd_def vsub_def natoms_sim4 sig2_def sigmaij_def foureps_def
        sim4_fields power2_eq_square replicate4 upd2)


section \<open>The switching factor\<close>

lemma lj_switch_product:
  assumes "0 < r2"
  shows "snd (lj_switch s ron2 roff2 denom r2)
     = switch s ron2 roff2 denom r2
         * (6 / r2 * (4 * epsilon s * (2 * (2 * sigma s / sqrt r2) ^ 12 - (2 * sigma s / sqrt r2) ^ 6)))
       + dswitch s ron2 roff2 denom r2 * lennard_jones (epsilon s) (2 * sigma s) (sqrt r2)"
proof -
  have "(2 * sigma s / sqrt r2)\<^sup>2 = sig2 s / r2"
    using assms by (simp add: power_divide sig2_def sigmaij_def)
  moreover have "(2 * sigma s / sqrt r2) ^ 12 = ((2 * sigma s / sqrt r2)\<^sup>2) ^ 6"
    "(2 * sigma s / sqrt r2) ^ 6 = ((2 * sigma s / sqrt r2)\<^sup>2) ^ 3"
    by (simp_all add: power_mult [symmetric])
  ultimately show ?thesis
    by (simp add: lj_switch_eq lennard_jones_def foureps_def algebra_simps)
qed

text \<open>
  Claim C4. In switched mode with a window \<open>0 < w < 2 * cutoff\<close> (which includes the range
  \<open>0 < w \<le> cutoff\<close> that the data model gives the window), with \<open>S\<close> the switching factor and \<open>dS\<close> the derivative factor of
  the code, both as functions of the squared distance \<open>r2\<close>:
  the pair energy is the Lennard-Jones energy times \<open>S\<close>; \<open>S\<close> is 1 for
  \<open>r2 \<le> (cutoff - w)\<^sup>2\<close>, is 0 at \<open>r2 = cutoff\<^sup>2\<close> and beyond, where \<open>dS\<close> is 0 too; \<open>S\<close> is
  differentiable at every \<open>r2\<close>, also at both ends of the window, and never increases.
  The force factors of the code are derivatives in the normalisation \<open>- 2 d/d r2\<close>
  (which is \<open>- (1/r) d/dr\<close>): the pair force is \<open>dR\<close> times the factor, and the gradient of
  \<open>f (r2)\<close> with respect to \<open>dR\<close> is \<open>2 f' (r2) dR\<close>. In this normalisation \<open>dS\<close> is exactly
  the derivative of \<open>S\<close>, the factor of the pair force is \<open>S\<close> times the Lennard-Jones
  force factor plus \<open>dS\<close> times the Lennard-Jones energy (the product-rule term), and
  it is exactly the derivative of the pair energy. The evaluator's energy is the sum of
  these pair energies and its forces are accumulated from these pair forces.
\<close>

theorem switched_pair_terms:
  assumes "0 < w" and "w < 2 * cutoff s"
  shows "(let ron2 = (cutoff s - w)\<^sup>2;
              roff2 = (cutoff s)\<^sup>2;
              denom = 1 / (roff2 - ron2) ^ 3;
              S = switch s ron2 roff2 denom;
              dS = dswitch s ron2 roff2 denom;
              pair = lj_switch s ron2 roff2 denom
          in (0 < r2 \<longrightarrow>
                fst (pair r2) = lennard_jones (epsilon s) (2 * sigma s) (sqrt r2) * S r2)
           \<and> (r2 \<le> (cutoff s - w)\<^sup>2 \<longrightarrow> S r2 = 1)
           \<and> S ((cutoff s)\<^sup>2) = 0
           \<and> (r2 > (cutoff s)\<^sup>2 \<longrightarrow> S r2 = 0 \<and> dS r2 = 0)
           \<and> DERIV S r2 :> - dS r2 / 2
           \<and> 0 \<le> dS r2
           \<and> (0 < r2 \<longrightarrow>
                snd (pair r2)
                  = S r2 * (6 / r2 * (4 * epsilon s
                        * (2 * (2 * sigma s / sqrt r2) ^ 12 - (2 * sigma s / sqrt r2) ^ 6)))
                    + dS r2 * lennard_jones (epsilon s) (2 * sigma s) (sqrt r2))
           \<and> (0 < r2 \<longrightarrow> DERIV (\<lambda>x. fst (pair x)) r2 :> - snd (pair r2) / 2)
           \<and> (compute_energy_and_gradient_switch s w pos = Inr (energy, forces) \<longrightarrow>
                energy = (\<Sum>dR\<leftarrow>displacements s pos. fst (pair (norm2 dR)))
                \<and> forces = accumulate (pairs s)
                    (map (\<lambda>dR. vscale (snd (pair (norm2 dR))) dR) (displacements s pos))
                    (replicate (natoms s) (0, 0))))"
proof -
  define ron2 where "ron2 = ron2_of s w"
  define denom where "denom = denom_of s w"
  have r: "ron2 < cutoff2 s" unfolding ron2_def by (rule window_ron2 [OF assms])
  have d: "denom = 1 / (cutoff2 s - ron2) ^ 3" by (simp add: denom_def denom_of_def ron2_def)
  let ?S = "switch s ron2 (cutoff2 s) denom"
  let ?dS = "dswitch s ron2 (cutoff2 s) denom"
  let ?pair = "lj_switch s ron2 (cutoff2 s) denom"
  have ends: "switch_poly ron2 (cutoff2 s) denom (cutoff2 s) = 0"
    using switch_poly_ends(2) [of ron2 "cutoff2 s"] r d by simp
  have 1: "0 < r2 \<longrightarrow> fst (?pair r2) = lennard_jones (epsilon s) (2 * sigma s) (sqrt r2) * ?S r2"
    by (simp add: lj_switch_lennard_jones)
  have 2: "r2 \<le> ron2 \<longrightarrow> ?S r2 = 1"
    using r by (simp add: switch_def)
  have 3: "?S (cutoff2 s) = 0"
    using r ends by (simp add: switch_def switch_poly_def)
  have 4: "r2 > cutoff2 s \<longrightarrow> ?S r2 = 0 \<and> ?dS r2 = 0"
    by (simp add: switch_beyond)
  have 5: "DERIV ?S r2 :> - ?dS r2 / 2"
    by (rule switch_deriv [OF r d])
  have 6: "0 \<le> ?dS r2"
    by (rule dswitch_nonneg [OF r d])
  have 7: "0 < r2 \<longrightarrow> snd (?pair r2)
      = ?S r2 * (6 / r2 * (4 * epsilon s
            * (2 * (2 * sigma s / sqrt r2) ^ 12 - (2 * sigma s / sqrt r2) ^ 6)))
        + ?dS r2 * lennard_jones (epsilon s) (2 * sigma s) (sqrt r2)"
    by (simp add: lj_switch_product)
  have 8: "0 < r2 \<longrightarrow> DERIV (\<lambda>x. fst (?pair x)) r2 :> - snd (?pair r2) / 2"
    using lj_switch_deriv [OF _ r d, of r2] by simp
  have 9: "compute_energy_and_gradient_switch s w pos = Inr (energy, forces) \<longrightarrow>
      energy = (\<Sum>dR\<leftarrow>displacements s pos. fst (?pair (norm2 dR)))
      \<and> forces = accumulate (pairs s)
          (map (\<lambda>dR. vscale (snd (?pair (norm2 dR))) dR) (displacements s pos))
          (replicate (natoms s) (0, 0))"
    using compute_switch_Inr(1,2) [of s w pos energy forces]
    by (simp add: pairenergies_switch_def pairforces_switch_def ron2_def denom_def)
  note all = 1 2 3 4 5 6 7 8 9
  have e: "(cutoff s - w)\<^sup>2 = ron2" "(cutoff s)\<^sup>2 = cutoff2 s"
    "1 / (cutoff2 s - ron2) ^ 3 = denom"
    by (simp_all add: ron2_def ron2_of_def cutoff2_def d)
  show ?thesis
    unfolding Let_def e using all by (intro conjI)
qed

theorem switched_pair_terms_witness:
  "0 < (2 :: real) \<and> 2 < 2 * cutoff sim4
   \<and> (cutoff sim4 - 2)\<^sup>2 = 1 \<and> (cutoff sim4)\<^sup>2 = 9
   \<and> switch sim4 1 9 (1 / 512) 1 = 1
   \<and> switch sim4 1 9 (1 / 512) 4 = 175 / 256
   \<and> fst (lj_switch sim4 1 9 (1 / 512) 4) = lennard_jones 1 1 2 * (175 / 256)
   \<and> switch sim4 1 9 (1 / 512) 16 = 0 \<and> dswitch sim4 1 9 (1 / 512) 16 = 0
   \<and> compute_energy_and_gradient_switch sim4 2 [(0, 0), (2, 0), (0, 4), (4, 4)]
       = Inr (- (11025 / 262144), [(- (21945 / 131072), 0), (21945 / 131072, 0), (0, 0), (0, 0)])
   \<and> - (11025 / 262144)
       = sum_list (map (\<lambda>dR. fst (lj_switch sim4 1 9 (1 / 512) (norm2 dR)))
           (displacements sim4 [(0, 0), (2, 0), (0, 4), (4, 4)]))"
proof -
  have w: "0 < (2 :: real)" "2 < 2 * cutoff sim4"
    by (simp_all add: sim4_fields)
  have k: "(cutoff sim4 - 2)\<^sup>2 = 1" "(cutoff sim4)\<^sup>2 = 9" "1 / ((9 :: real) - 1) ^ 3 = 1 / 512"
    by (simp_all add: sim4_fields)
  note t = switched_pair_terms [OF w, unfolded Let_def k]
  have v: "switch sim4 1 9 (1 / 512) 4 = 175 / 256"
    by (simp add: switch_def cutoff2_def sim4_fields)
  have a: "switch sim4 1 9 (1 / 512) 1 = 1"
    using t [of 1, THEN conjunct2, THEN conjunct1] by simp
  have b: "fst (lj_switch sim4 1 9 (1 / 512) 4) = lennard_jones 1 1 2 * (175 / 256)"
    using t [of 4, THEN conjunct1] by (simp add: sim4_fields v)
  have c: "switch sim4 1 9 (1 / 512) 16 = 0 \<and> dswitch sim4 1 9 (1 / 512) 16 = 0"
    using t [of 16, THEN conjunct2, THEN conjunct2, THEN conjunct2, THEN conjunct1] by simp
  have d: "- (11025 / 262144)
       = sum_list (map (\<lambda>dR. fst (lj_switch sim4 1 9 (1 / 512) (norm2 dR)))
           (displacements sim4 [(0, 0), (2, 0), (0, 4), (4, 4)]))"
    using t [of 1, THEN conjunct2, THEN conjunct2, THEN conjunct2, THEN conjunct2,
        THEN conjunct2, THEN conjunct2, THEN conjunct2, THEN conjunct2, THEN mp,
        OF compute_switch_sim4, THEN conjunct1] .
  show ?thesis
    using w k(1,2) v a b c d compute_switch_sim4 by (intro conjI) blast+
qed
section \<open>The returned array is the gradient\<close>

lemma sim4_gradient_cutoff_x:
  "DERIV (energy_x (compute_energy_and_gradient_cutoff sim4) [(0, 0), (2, 0), (0, 4), (4, 4)] 0) 0
     :> - (93 / 512)"
  using cutoff_gradient(1) [OF _ _ _ _ compute_cutoff_sim4 sim4_not_at_cutoff, of 0]
  by (simp add: sim4_fields natoms_sim4)

text \<open>
  Claim C1 says that the entry of atom \<open>k\<close> in the returned array is minus the partial
  derivative of the returned energy. For the small configuration the hard-cutoff
  evaluator returns the entry \<open>- 93/512\<close> for the x coordinate of atom 0; the derivative of
  the returned energy with respect to that coordinate is not \<open>- (- 93/512)\<close>.
\<close>

theorem forces_negative_gradient_counterexample:
  "compute_energy_and_gradient_cutoff sim4 [(0, 0), (2, 0), (0, 4), (4, 4)]
     = Inr (- (63 / 1024), [(- (93 / 512), 0), (93 / 512, 0), (0, 0), (0, 0)])
   \<and> \<not> DERIV (energy_x (compute_energy_and_gradient_cutoff sim4) [(0, 0), (2, 0), (0, 4), (4, 4)] 0) 0
         :> - (- (93 / 512))"
proof
  show "compute_energy_and_gradient_cutoff sim4 [(0, 0), (2, 0), (0, 4), (4, 4)]
     = Inr (- (63 / 1024), [(- (93 / 512), 0), (93 / 512, 0), (0, 0), (0, 0)])"
    by (rule compute_cutoff_sim4)
  show "\<not> DERIV (energy_x (compute_energy_and_gradient_cutoff sim4) [(0, 0), (2, 0), (0, 4), (4, 4)] 0) 0
         :> - (- (93 / 512))"
  proof
    assume "DERIV (energy_x (compute_energy_and_gradient_cutoff sim4) [(0, 0), (2, 0), (0, 4), (4, 4)] 0) 0
         :> - (- (93 / 512))"
    from DERIV_unique [OF this sim4_gradient_cutoff_x] show False by simp
  qed
qed


text \<open>
  Claim C1, amended: the returned array is the gradient itself. Let the box length be
  positive and \<open>cutoff\<^sup>2 < (boxlength / 2)\<^sup>2\<close>, and let the position array have \<open>natoms\<close>
  rows. Whenever the hard-cutoff evaluator returns finite values and no pair sits
  exactly at the cutoff (where the energy jumps), and whenever the switched evaluator
  with \<open>0 < w < 2 * cutoff\<close> returns finite values, the entry of atom \<open>k\<close> is the partial
  derivative of the returned energy with respect to the x and the y coordinate of atom
  \<open>k\<close>, and it is the sum of the pair forces of the pairs whose first atom is \<open>k\<close> minus
  the pair forces of the pairs whose second atom is \<open>k\<close>: each pair force is added to
  one atom's entry and subtracted from the other's.
\<close>

theorem forces_are_energy_gradient:
  assumes "0 < boxlength s" and "(cutoff s)\<^sup>2 < (boxlength s / 2)\<^sup>2"
    and "k < natoms s" and "length pos = natoms s"
  shows "(compute_energy_and_gradient_cutoff s pos = Inr (energy, forces)
          \<and> (\<forall>dR \<in> set (displacements s pos). norm2 dR \<noteq> (cutoff s)\<^sup>2)
        \<longrightarrow>
          DERIV (energy_x (compute_energy_and_gradient_cutoff s) pos k) (fst (pos ! k))
            :> fst (forces ! k)
          \<and> DERIV (energy_y (compute_energy_and_gradient_cutoff s) pos k) (snd (pos ! k))
            :> snd (forces ! k)
          \<and> fst (forces ! k)
              = (\<Sum>(p, f)\<leftarrow>zip (pairs s) (pairforces_cutoff s pos). fst (contrib k p f))
          \<and> snd (forces ! k)
              = (\<Sum>(p, f)\<leftarrow>zip (pairs s) (pairforces_cutoff s pos). snd (contrib k p f)))
       \<and> (compute_energy_and_gradient_switch s w pos = Inr (energy, forces)
          \<and> 0 < w \<and> w < 2 * cutoff s
        \<longrightarrow>
          DERIV (energy_x (compute_energy_and_gradient_switch s w) pos k) (fst (pos ! k))
            :> fst (forces ! k)
          \<and> DERIV (energy_y (compute_energy_and_gradient_switch s w) pos k) (snd (pos ! k))
            :> snd (forces ! k)
          \<and> fst (forces ! k)
              = (\<Sum>(p, f)\<leftarrow>zip (pairs s) (pairforces_switch s w pos). fst (contrib k p f))
          \<and> snd (forces ! k)
              = (\<Sum>(p, f)\<leftarrow>zip (pairs s) (pairforces_switch s w pos). snd (contrib k p f)))"
proof (intro conjI impI)
  assume a: "compute_energy_and_gradient_cutoff s pos = Inr (energy, forces)
          \<and> (\<forall>dR \<in> set (displacements s pos). norm2 dR \<noteq> (cutoff s)\<^sup>2)"
  then have ok: "compute_energy_and_gradient_cutoff s pos = Inr (energy, forces)"
    and nc: "\<forall>dR \<in> set (displacements s pos). norm2 dR \<noteq> (cutoff s)\<^sup>2"
    by blast+
  have f: "forces = accumulate (pairs s) (pairforces_cutoff s pos) (replicate (natoms s) (0, 0))"
    by (rule compute_cutoff_Inr(2) [OF ok])
  have l: "length (pairforces_cutoff s pos) = length (pairs s)"
    by (simp add: pairforces_cutoff_def length_displacements)
  show "DERIV (energy_x (compute_energy_and_gradient_cutoff s) pos k) (fst (pos ! k))
            :> fst (forces ! k)"
    by (rule cutoff_gradient(1) [OF assms ok nc])
  show "DERIV (energy_y (compute_energy_and_gradient_cutoff s) pos k) (snd (pos ! k))
            :> snd (forces ! k)"
    by (rule cutoff_gradient(2) [OF assms ok nc])
  show "fst (forces ! k)
      = (\<Sum>(p, f)\<leftarrow>zip (pairs s) (pairforces_cutoff s pos). fst (contrib k p f))"
    unfolding f by (rule forces_contrib(1) [OF assms(3) l])
  show "snd (forces ! k)
      = (\<Sum>(p, f)\<leftarrow>zip (pairs s) (pairforces_cutoff s pos). snd (contrib k p f))"
    unfolding f by (rule forces_contrib(2) [OF assms(3) l])
next
  assume a: "compute_energy_and_gradient_switch s w pos = Inr (energy, forces)
          \<and> 0 < w \<and> w < 2 * cutoff s"
  then have ok: "compute_energy_and_gradient_switch s w pos = Inr (energy, forces)"
    and w: "0 < w" "w < 2 * cutoff s"
    by blast+
  have f: "forces = accumulate (pairs s) (pairforces_switch s w pos) (replicate (natoms s) (0, 0))"
    by (rule compute_switch_Inr(2) [OF ok])
  have l: "length (pairforces_switch s w pos) = length (pairs s)"
    by (simp add: pairforces_switch_def length_displacements)
  show "DERIV (energy_x (compute_energy_and_gradient_switch s w) pos k) (fst (pos ! k))
            :> fst (forces ! k)"
    by (rule switch_gradient(1) [OF assms ok w])
  show "DERIV (energy_y (compute_energy_and_gradient_switch s w) pos k) (snd (pos ! k))
            :> snd (forces ! k)"
    by (rule switch_gradient(2) [OF assms ok w])
  show "fst (forces ! k)
      = (\<Sum>(p, f)\<leftarrow>zip (pairs s) (pairforces_switch s w pos). fst (contrib k p f))"
    unfolding f by (rule forces_contrib(1) [OF assms(3) l])
  show "snd (forces ! k)
      = (\<Sum>(p, f)\<leftarrow>zip (pairs s) (pairforces_switch s w pos). snd (contrib k p f))"
    unfolding f by (rule forces_contrib(2) [OF assms(3) l])
qed

theorem forces_are_energy_gradient_witness:
  "0 < boxlength sim4 \<and> (cutoff sim4)\<^sup>2 < (boxlength sim4 / 2)\<^sup>2 \<and> 0 < natoms sim4
   \<and> length [(0 :: real, 0 :: real), (2, 0), (0, 4), (4, 4)] = natoms sim4
   \<and> compute_energy_and_gradient_cutoff sim4 [(0, 0), (2, 0), (0, 4), (4, 4)]
       = Inr (- (63 / 1024), [(- (93 / 512), 0), (93 / 512, 0), (0, 0), (0, 0)])
   \<and> map norm2 (displacements sim4 [(0, 0), (2, 0), (0, 4), (4, 4)]) = [4, 16, 32, 20, 20, 16]
   \<and> (cutoff sim4)\<^sup>2 = 9
   \<and> DERIV (energy_x (compute_energy_and_gradient_cutoff sim4) [(0, 0), (2, 0), (0, 4), (4, 4)] 0) 0
         :> - (93 / 512)
   \<and> compute_energy_and_gradient_switch sim4 2 [(0, 0), (2, 0), (0, 4), (4, 4)]
       = Inr (- (11025 / 262144), [(- (21945 / 131072), 0), (21945 / 131072, 0), (0, 0), (0, 0)])
   \<and> 0 < (2 :: real) \<and> 2 < 2 * cutoff sim4
   \<and> DERIV (energy_x (compute_energy_and_gradient_switch sim4 2) [(0, 0), (2, 0), (0, 4), (4, 4)] 0) 0
         :> - (21945 / 131072)"
proof -
  let ?pos = "[(0, 0), (2, 0), (0, 4), (4, 4)] :: vec list"
  have h: "0 < boxlength sim4" "(cutoff sim4)\<^sup>2 < (boxlength sim4 / 2)\<^sup>2" "0 < natoms sim4"
    "length ?pos = natoms sim4"
    by (simp_all add: sim4_fields natoms_sim4)
  have c: "(cutoff sim4)\<^sup>2 = 9" "0 < (2 :: real)" "2 < 2 * cutoff sim4"
    by (simp_all add: sim4_fields)
  have 1: "DERIV (energy_x (compute_energy_and_gradient_cutoff sim4) ?pos 0) 0 :> - (93 / 512)"
  proof -
    have p: "compute_energy_and_gradient_cutoff sim4 ?pos
          = Inr (- (63 / 1024), [(- (93 / 512), 0), (93 / 512, 0), (0, 0), (0, 0)])
        \<and> (\<forall>dR \<in> set (displacements sim4 ?pos). norm2 dR \<noteq> (cutoff sim4)\<^sup>2)"
      using compute_cutoff_sim4 sim4_not_at_cutoff by (rule conjI)
    from forces_are_energy_gradient [OF h, THEN conjunct1, THEN mp, OF p, THEN conjunct1]
    show ?thesis by simp
  qed
  have 2: "DERIV (energy_x (compute_energy_and_gradient_switch sim4 2) ?pos 0) 0
      :> - (21945 / 131072)"
  proof -
    have p: "compute_energy_and_gradient_switch sim4 2 ?pos
          = Inr (- (11025 / 262144), [(- (21945 / 131072), 0), (21945 / 131072, 0), (0, 0), (0, 0)])
        \<and> 0 < (2 :: real) \<and> 2 < 2 * cutoff sim4"
      using compute_switch_sim4 c(2,3) by (intro conjI)
    from forces_are_energy_gradient [OF h, THEN conjunct2, THEN mp, OF p, THEN conjunct1]
    show ?thesis by simp
  qed
  show ?thesis
    by (intro conjI) (rule h c 1 2 compute_cutoff_sim4 compute_switch_sim4 norms_sim4)+
qed
end
